theory Spec2Isabelle
  imports Complex_Main "HOL-Library.Char_ord" "HOL-Library.List_Lexorder"
    "HOL-Library.Option_ord" "HOL-Library.Product_Lexorder" "HOL-Library.Multiset"
begin
section \<open>Data model: tables of inspection rows\<close>

text \<open>
  The pipeline works on pandas tables. A table is modelled by the list of its column names
  and the list of its rows; a row has one typed, nullable cell for every column the pipeline
  of \<^verbatim>\<open>features.py\<close> and \<^verbatim>\<open>aggregate.py\<close> reads or writes. A cell is meaningful only when the
  name of its column is among the table's columns; \<open>None\<close> is pandas' missing value
  (\<^verbatim>\<open>NaN\<close>, \<^verbatim>\<open>NaT\<close>, \<^verbatim>\<open>None\<close>).

  A timestamp is an integer number of nanoseconds since the epoch, as in
  \<^verbatim>\<open>datetime64[ns]\<close>. Scores and indices are floats in the source; their finite values are
  idealised as rationals, and the float \<^verbatim>\<open>NaN\<close> is \<open>None\<close>.
\<close>

type_synonym timestamp = int

record row =
  camis :: "string option"
  inspection_date :: "timestamp option"
  score :: "rat option"
  grade :: "string option"
  violation_code :: "string option"
  violation_description :: "string option"
  is_critical_description :: "bool option"
  action :: "string option"
  inspection_number :: "int option"
  prev_inspection_date :: "timestamp option"
  days_since_prev :: "int option"
  violation_count :: "int option"
  critical_violations :: "int option"
  score_filled :: "rat option"
  hygiene_index_raw :: "rat option"
  hygiene_index :: "rat option"
  zipcode :: "string option"

record frame =
  columns :: "string list"
  rows :: "row list"

datatype error = KeyError | RuntimeError

definition null_row :: row where
  "null_row = \<lparr>camis = None, inspection_date = None, score = None, grade = None,
     violation_code = None, violation_description = None, is_critical_description = None,
     action = None, inspection_number = None, prev_inspection_date = None,
     days_since_prev = None, violation_count = None, critical_violations = None,
     score_filled = None, hygiene_index_raw = None, hygiene_index = None, zipcode = None\<rparr>"

text \<open>\<^verbatim>\<open>df[name] = values\<close> appends the column when the table does not have it yet.\<close>

definition add_column :: "string \<Rightarrow> string list \<Rightarrow> string list" where
  "add_column c cs = (if c \<in> set cs then cs else cs @ [c])"

section \<open>History Builder (\<^verbatim>\<open>features.py\<close>, \<^verbatim>\<open>build_establishment_history\<close>)\<close>

subsection \<open>Sorting by establishment and date\<close>

text \<open>
  \<^verbatim>\<open>sort_values([camis, inspection_date])\<close> is a stable sort on the two keys, ascending, with
  missing values last in each key. Strings compare by code point, lexicographically.
\<close>

definition sort_key_of :: "row \<Rightarrow> (bool \<times> string option) \<times> (bool \<times> timestamp option)" where
  "sort_key_of r = ((camis r = None, camis r), (inspection_date r = None, inspection_date r))"

definition sort_values :: "row list \<Rightarrow> row list" where
  "sort_values rs = sort_key sort_key_of rs"

subsection \<open>Ordinal number and lag within an establishment\<close>

definition ns_per_day :: int where
  "ns_per_day = 86400000000000"

text \<open>\<^verbatim>\<open>(a - b).dt.days\<close>: the whole days of a time difference, missing when either side is.\<close>

definition days_between :: "timestamp option \<Rightarrow> timestamp option \<Rightarrow> int option" where
  "days_between d p =
     (case d of None \<Rightarrow> None
      | Some a \<Rightarrow> (case p of None \<Rightarrow> None | Some b \<Rightarrow> Some ((a - b) div ns_per_day)))"

text \<open>
  The three assignments
  \<^verbatim>\<open>t["inspection_number"] = t.groupby(camis).cumcount() + 1\<close>,
  \<^verbatim>\<open>t["prev_inspection_date"] = t.groupby(camis)[date].shift(1)\<close> and
  \<^verbatim>\<open>t["days_since_prev"] = (to_datetime(t[date]) - to_datetime(t["prev_inspection_date"])).dt.days\<close>
  for one row, given the rows \<open>seen\<close> above it in the table: the rows of the same establishment
  among them are counted, and the date of the last of them is the previous date. A row
  without establishment belongs to no group and gets missing values.
\<close>

definition lag_row :: "row list \<Rightarrow> row \<Rightarrow> row" where
  "lag_row seen r =
     (let prior = filter (\<lambda>q. camis q = camis r) seen;
          n = (if camis r = None then None else Some (int (length prior) + 1));
          p = (if camis r = None \<or> prior = [] then None else inspection_date (last prior))
      in r\<lparr>inspection_number := n, prev_inspection_date := p,
            days_since_prev := days_between (inspection_date r) p\<rparr>)"

fun lag_rows :: "row list \<Rightarrow> row list \<Rightarrow> row list" where
  "lag_rows seen [] = []"
| "lag_rows seen (r # rs) = lag_row seen r # lag_rows (seen @ [r]) rs"

definition lag_columns :: "frame \<Rightarrow> frame" where
  "lag_columns t =
     \<lparr>columns = add_column ''days_since_prev'' (add_column ''prev_inspection_date''
                  (add_column ''inspection_number'' (columns t))),
      rows = lag_rows [] (rows t)\<rparr>"

subsection \<open>Collapsing rows into visits\<close>

text \<open>
  \<^verbatim>\<open>groupby([camis, inspection_date])\<close> keeps its defaults \<^verbatim>\<open>sort=True\<close> and \<^verbatim>\<open>dropna=True\<close>:
  a row with a missing establishment or a missing date belongs to no group, and the groups
  come out in ascending order of their keys, each holding its rows in table order.
\<close>

definition row_key :: "row \<Rightarrow> (string \<times> timestamp) option" where
  "row_key r =
     (case camis r of None \<Rightarrow> None
      | Some c \<Rightarrow> (case inspection_date r of None \<Rightarrow> None | Some d \<Rightarrow> Some (c, d)))"

definition group_keys :: "row list \<Rightarrow> (string \<times> timestamp) list" where
  "group_keys rs = sort (remdups (List.map_filter row_key rs))"

definition group_rows :: "string \<times> timestamp \<Rightarrow> row list \<Rightarrow> row list" where
  "group_rows k rs = filter (\<lambda>r. row_key r = Some k) rs"

text \<open>The aggregations: \<^verbatim>\<open>"count"\<close> and \<^verbatim>\<open>notna().sum()\<close> count the cells that are not
  missing, \<^verbatim>\<open>"sum"\<close> of a Boolean column counts its true cells, \<^verbatim>\<open>"first"\<close> is the first cell
  that is not missing.\<close>

definition count_valid :: "'a option list \<Rightarrow> int" where
  "count_valid xs = int (length (filter (\<lambda>x. x \<noteq> None) xs))"

definition sum_bool :: "bool option list \<Rightarrow> int" where
  "sum_bool xs = int (length (filter (\<lambda>x. x = Some True) xs))"

definition first_valid :: "'a option list \<Rightarrow> 'a option" where
  "first_valid xs = (case filter (\<lambda>x. x \<noteq> None) xs of [] \<Rightarrow> None | x # _ \<Rightarrow> x)"

definition agg_row :: "bool \<Rightarrow> row list \<Rightarrow> string \<times> timestamp \<Rightarrow> row" where
  "agg_row by_code rs k =
     (let g = group_rows k rs
      in null_row\<lparr>camis := Some (fst k), inspection_date := Some (snd k),
           violation_count := Some (if by_code then count_valid (map violation_code g)
                                    else count_valid (map violation_description g)),
           critical_violations := Some (sum_bool (map is_critical_description g)),
           score := first_valid (map score g),
           grade := first_valid (map grade g),
           action := first_valid (map action g)\<rparr>)"

definition agg_columns :: "string list" where
  "agg_columns = [''camis'', ''inspection_date'', ''violation_count'', ''critical_violations'',
     ''score'', ''grade'', ''action'']"

text \<open>
  The two branches of the source differ in the column that is counted only: the codes when
  the table has a \<^verbatim>\<open>violation_code\<close> column, the descriptions otherwise. Aggregating a column
  the table does not have raises \<^verbatim>\<open>KeyError\<close>.
\<close>

definition groupby_agg :: "frame \<Rightarrow> error + frame" where
  "groupby_agg t =
     (if ''violation_code'' \<in> set (columns t) then
        (if set [''is_critical_description'', ''score'', ''grade'', ''action'']
              \<subseteq> set (columns t)
         then Inr \<lparr>columns = agg_columns,
                   rows = map (agg_row True (rows t)) (group_keys (rows t))\<rparr>
         else Inl KeyError)
      else
        (if set [''violation_description'', ''is_critical_description'', ''score'', ''grade'',
                 ''action''] \<subseteq> set (columns t)
         then Inr \<lparr>columns = agg_columns,
                   rows = map (agg_row False (rows t)) (group_keys (rows t))\<rparr>
         else Inl KeyError))"

subsection \<open>The function\<close>

text \<open>\<^verbatim>\<open>df[existing + [c for c in df.columns if c not in existing]]\<close> reorders the columns.\<close>

definition required_cols :: "string list" where
  "required_cols = [''camis'', ''inspection_date'', ''score'', ''grade'', ''violation_code'',
     ''violation_description'', ''is_critical_description'', ''action'']"

definition reorder_columns :: "frame \<Rightarrow> frame" where
  "reorder_columns t =
     (let existing = filter (\<lambda>c. c \<in> set (columns t)) required_cols
      in t\<lparr>columns := existing @ filter (\<lambda>c. c \<notin> set existing) (columns t)\<rparr>)"

definition sort_frame :: "frame \<Rightarrow> error + frame" where
  "sort_frame t =
     (if ''camis'' \<in> set (columns t) \<and> ''inspection_date'' \<in> set (columns t)
      then Inr (t\<lparr>rows := sort_values (rows t)\<rparr>) else Inl KeyError)"

text \<open>
  The value \<^verbatim>\<open>build_establishment_history\<close> returns for a table, with the default column
  names. The numbering and lag of the sorted rows before they are collapsed (lines 19 to 21
  of the source) are computed as the source does, and the aggregation does not read them.
\<close>

definition build_establishment_history :: "frame \<Rightarrow> error + frame" where
  "build_establishment_history df =
     (case sort_frame (reorder_columns df) of Inl e \<Rightarrow> Inl e
      | Inr df_sorted \<Rightarrow>
          (case groupby_agg (lag_columns df_sorted) of Inl e \<Rightarrow> Inl e
           | Inr agg \<Rightarrow>
               (case sort_frame agg of Inl e \<Rightarrow> Inl e
                | Inr agg_sorted \<Rightarrow> Inr (lag_columns agg_sorted))))"


subsection \<open>Notions used to state the properties\<close>

text \<open>Whether the codes or the descriptions are counted.\<close>

definition by_code :: "frame \<Rightarrow> bool" where
  "by_code df = (''violation_code'' \<in> set (columns df))"

text \<open>The columns the function reads: without one of them it raises \<^verbatim>\<open>KeyError\<close>.\<close>

definition history_columns_present :: "frame \<Rightarrow> bool" where
  "history_columns_present df =
     (set [''camis'', ''inspection_date'', ''is_critical_description'', ''score'', ''grade'',
           ''action''] \<subseteq> set (columns df)
      \<and> (''violation_code'' \<in> set (columns df) \<or> ''violation_description'' \<in> set (columns df)))"

text \<open>The dates on which an establishment has a group, in ascending order.\<close>

definition dates_of :: "string \<Rightarrow> row list \<Rightarrow> timestamp list" where
  "dates_of c rs = map snd (filter (\<lambda>k. fst k = c) (group_keys rs))"

text \<open>The visits of an establishment, in table order.\<close>

definition visits_of :: "string \<Rightarrow> frame \<Rightarrow> row list" where
  "visits_of c t = filter (\<lambda>v. camis v = Some c) (rows t)"

text \<open>The sequence of ordinal numbers and day differences of a result, visit by visit.\<close>

definition history_seq ::
  "error + frame \<Rightarrow> error + (string option \<times> timestamp option \<times> int option \<times> int option) list" where
  "history_seq res =
     (case res of Inl e \<Rightarrow> Inl e
      | Inr t \<Rightarrow> Inr (map (\<lambda>v. (camis v, inspection_date v, inspection_number v,
                                   days_since_prev v)) (rows t)))"

section \<open>Hygiene Index Calculator (\<^verbatim>\<open>features.py\<close>, \<^verbatim>\<open>compute_hygiene_index\<close>)\<close>

text \<open>
  Arithmetic on cells: a missing operand gives a missing result, as \<^verbatim>\<open>NaN\<close> does.
  \<^verbatim>\<open>Series.min()\<close>, \<^verbatim>\<open>max()\<close> and \<^verbatim>\<open>median()\<close> skip missing cells and are missing when no
  cell is left.
\<close>

definition lift2 :: "(rat \<Rightarrow> rat \<Rightarrow> rat) \<Rightarrow> rat option \<Rightarrow> rat option \<Rightarrow> rat option" where
  "lift2 f a b =
     (case a of None \<Rightarrow> None | Some x \<Rightarrow> (case b of None \<Rightarrow> None | Some y \<Rightarrow> Some (f x y)))"

definition nan_min :: "rat option list \<Rightarrow> rat option" where
  "nan_min xs = (case List.map_filter id xs of [] \<Rightarrow> None | v # vs \<Rightarrow> Some (fold min vs v))"

definition nan_max :: "rat option list \<Rightarrow> rat option" where
  "nan_max xs = (case List.map_filter id xs of [] \<Rightarrow> None | v # vs \<Rightarrow> Some (fold max vs v))"

definition median :: "rat option list \<Rightarrow> rat option" where
  "median xs =
     (let vs = sort (List.map_filter id xs); n = length vs
      in if n = 0 then None
         else if odd n then Some (vs ! (n div 2))
         else Some ((vs ! (n div 2 - 1) + vs ! (n div 2)) / 2))"

definition fillna :: "'a option \<Rightarrow> 'a option list \<Rightarrow> 'a option list" where
  "fillna v xs = map (\<lambda>x. case x of None \<Rightarrow> v | Some y \<Rightarrow> Some y) xs"

definition eps :: rat where
  "eps = 1 / 10 ^ 9"

text \<open>\<^verbatim>\<open>(c - c.min()) / (c.max() - c.min() + 1e-9)\<close>\<close>

definition min_max_scale :: "rat option list \<Rightarrow> rat option list" where
  "min_max_scale c =
     (let lo = nan_min c; hi = nan_max c
      in map (\<lambda>x. lift2 (/) (lift2 (-) x lo) (lift2 (+) (lift2 (-) hi lo) (Some eps))) c)"

definition s_scaled :: "row list \<Rightarrow> rat option list" where
  "s_scaled rs = min_max_scale (map score_filled rs)"

definition cv_scaled :: "row list \<Rightarrow> rat option list" where
  "cv_scaled rs = min_max_scale (fillna (Some 0) (map (map_option of_int \<circ> critical_violations) rs))"

definition vc_scaled :: "row list \<Rightarrow> rat option list" where
  "vc_scaled rs = min_max_scale (fillna (Some 0) (map (map_option of_int \<circ> violation_count) rs))"

text \<open>
  \<^verbatim>\<open>weight_score * s_scaled + weight_critical * cv_scaled + weight_violation_count * vc_scaled\<close>,
  row by row.
\<close>

definition weighted_sum ::
  "rat \<Rightarrow> rat \<Rightarrow> rat \<Rightarrow> rat option list \<Rightarrow> rat option list \<Rightarrow> rat option list
     \<Rightarrow> rat option list" where
  "weighted_sum weight_score weight_critical weight_violation_count s cv vc =
     map2 (lift2 (+))
       (map2 (lift2 (+)) (map (lift2 (*) (Some weight_score)) s)
          (map (lift2 (*) (Some weight_critical)) cv))
       (map (lift2 (*) (Some weight_violation_count)) vc)"

text \<open>\<^verbatim>\<open>100 * (raw - raw.min()) / (raw.max() - raw.min() + 1e-9)\<close>\<close>

definition scale_100 :: "rat option list \<Rightarrow> rat option list" where
  "scale_100 raw =
     (let lo = nan_min raw; hi = nan_max raw
      in map (\<lambda>x. lift2 (/) (lift2 (*) (Some 100) (lift2 (-) x lo))
                    (lift2 (+) (lift2 (-) hi lo) (Some eps))) raw)"

text \<open>The three column assignments of the function, each on the whole table.\<close>

definition set_score_filled :: "frame \<Rightarrow> frame" where
  "set_score_filled t =
     \<lparr>columns = add_column ''score_filled'' (columns t),
      rows = map2 (\<lambda>r v. r\<lparr>score_filled := v\<rparr>) (rows t)
               (fillna (median (map score (rows t))) (map score (rows t)))\<rparr>"

definition set_hygiene_index_raw :: "rat \<Rightarrow> rat \<Rightarrow> rat \<Rightarrow> frame \<Rightarrow> frame" where
  "set_hygiene_index_raw weight_score weight_critical weight_violation_count t =
     \<lparr>columns = add_column ''hygiene_index_raw'' (columns t),
      rows = map2 (\<lambda>r v. r\<lparr>hygiene_index_raw := v\<rparr>) (rows t)
               (weighted_sum weight_score weight_critical weight_violation_count
                  (s_scaled (rows t)) (cv_scaled (rows t)) (vc_scaled (rows t)))\<rparr>"

definition set_hygiene_index :: "frame \<Rightarrow> frame" where
  "set_hygiene_index t =
     \<lparr>columns = add_column ''hygiene_index'' (columns t),
      rows = map2 (\<lambda>r v. r\<lparr>hygiene_index := v\<rparr>) (rows t)
               (scale_100 (map hygiene_index_raw (rows t)))\<rparr>"

text \<open>
  The value \<^verbatim>\<open>compute_hygiene_index\<close> returns. Reading a column the table does not have
  raises \<^verbatim>\<open>KeyError\<close>: \<^verbatim>\<open>score\<close> at the first assignment, the two counts after it.
\<close>

definition compute_hygiene_index :: "rat \<Rightarrow> rat \<Rightarrow> rat \<Rightarrow> frame \<Rightarrow> error + frame" where
  "compute_hygiene_index weight_score weight_critical weight_violation_count df =
     (if ''score'' \<in> set (columns df)
      then let df1 = set_score_filled df
           in if ''critical_violations'' \<in> set (columns df1)
                 \<and> ''violation_count'' \<in> set (columns df1)
              then Inr (set_hygiene_index
                     (set_hygiene_index_raw weight_score weight_critical
                        weight_violation_count df1))
              else Inl KeyError
      else Inl KeyError)"

text \<open>
  The filled scores and the raw indices of a table, as the function computes them on its
  way; they serve to state what the columns of the result hold.
\<close>

definition filled_scores :: "row list \<Rightarrow> rat option list" where
  "filled_scores rs = fillna (median (map score rs)) (map score rs)"

definition raw_indices :: "rat \<Rightarrow> rat \<Rightarrow> rat \<Rightarrow> row list \<Rightarrow> rat option list" where
  "raw_indices weight_score weight_critical weight_violation_count rs =
     weighted_sum weight_score weight_critical weight_violation_count
       (min_max_scale (filled_scores rs))
       (min_max_scale (fillna (Some 0) (map (map_option of_int \<circ> critical_violations) rs)))
       (min_max_scale (fillna (Some 0) (map (map_option of_int \<circ> violation_count) rs)))"

text \<open>The default weights of the source: 0.4, 0.5 and 0.1.\<close>

definition compute_hygiene_index_default :: "frame \<Rightarrow> error + frame" where
  "compute_hygiene_index_default df = compute_hygiene_index (2 / 5) (1 / 2) (1 / 10) df"


section \<open>Aggregator (\<^verbatim>\<open>aggregate.py\<close>, \<^verbatim>\<open>aggregate_by_zip\<close>)\<close>

record zip_period =
  agg_zipcode :: string
  period :: timestamp
  mean_hygiene_index :: "rat option"
  median_hygiene_index :: "rat option"
  inspections :: int
  unique_establishments :: int
  mean_score :: "rat option"
  mean_critical_violations :: "rat option"
  closure_share :: "rat option"

text \<open>\<^verbatim>\<open>"mean"\<close> skips missing cells and is missing when no cell is left.\<close>

definition mean :: "rat option list \<Rightarrow> rat option" where
  "mean xs = (case List.map_filter id xs of [] \<Rightarrow> None
              | v # vs \<Rightarrow> Some (sum_list (v # vs) / of_nat (length (v # vs))))"

text \<open>
  \<^verbatim>\<open>s.str.contains("closed", case=False, na=False)\<close>: the text holds the word in any mix of
  upper and lower case; a missing text does not.
\<close>

definition lower_char :: "char \<Rightarrow> char" where
  "lower_char c = (if CHR ''A'' \<le> c \<and> c \<le> CHR ''Z'' then char_of (of_char c + (32::nat)) else c)"

definition contains_ci :: "string \<Rightarrow> string option \<Rightarrow> bool" where
  "contains_ci pat cell =
     (case cell of None \<Rightarrow> False
      | Some s \<Rightarrow>
          (let p = map lower_char pat; t = map lower_char s
           in list_ex (\<lambda>i. take (length p) (drop i t) = p) [0..<Suc (length t)]))"

text \<open>
  The key of a row in \<^verbatim>\<open>groupby([zipcode, "period"])\<close>. The conversion
  \<^verbatim>\<open>dt.to_period(time_freq).dt.to_timestamp()\<close> of a date to the start of its period is a
  parameter, \<open>to_period_start\<close>.
\<close>

definition zp_key :: "(timestamp \<Rightarrow> timestamp) \<Rightarrow> row \<Rightarrow> (string \<times> timestamp) option" where
  "zp_key to_period_start r =
     (case zipcode r of None \<Rightarrow> None
      | Some z \<Rightarrow> (case inspection_date r of None \<Rightarrow> None
                   | Some d \<Rightarrow> Some (z, to_period_start d)))"

definition zp_keys :: "(timestamp \<Rightarrow> timestamp) \<Rightarrow> row list \<Rightarrow> (string \<times> timestamp) list" where
  "zp_keys to_period_start rs = sort (remdups (List.map_filter (zp_key to_period_start) rs))"

definition zp_row :: "(timestamp \<Rightarrow> timestamp) \<Rightarrow> row list \<Rightarrow> string \<times> timestamp \<Rightarrow> zip_period" where
  "zp_row to_period_start rs k =
     (let g = filter (\<lambda>r. zp_key to_period_start r = Some k) rs
      in \<lparr>agg_zipcode = fst k, period = snd k,
          mean_hygiene_index = mean (map hygiene_index g),
          median_hygiene_index = median (map hygiene_index g),
          inspections = count_valid (map inspection_number g),
          unique_establishments = int (length (remdups (List.map_filter camis g))),
          mean_score = mean (map score g),
          mean_critical_violations = mean (map (map_option of_int \<circ> critical_violations) g),
          closure_share = mean (map (\<lambda>r. Some (if contains_ci ''closed'' (action r) then 1 else 0)) g)\<rparr>)"

text \<open>
  The conversion for the default \<^verbatim>\<open>time_freq="M"\<close>: midnight of the first day of the
  calendar month of a timestamp. The day of the month of a day number follows the
  proleptic Gregorian calendar, counted in eras of 400 years that start on a first of March.
\<close>

definition day_of_month :: "int \<Rightarrow> int" where
  "day_of_month z =
     (let doe = (z + 719468) mod 146097;
          yoe = (doe - doe div 1460 + doe div 36524 - doe div 146096) div 365;
          doy = doe - (365 * yoe + yoe div 4 - yoe div 100);
          mp = (5 * doy + 2) div 153
      in doy - (153 * mp + 2) div 5 + 1)"

definition month_start :: "timestamp \<Rightarrow> timestamp" where
  "month_start t =
     (let z = t div ns_per_day in (z - (day_of_month z - 1)) * ns_per_day)"

text \<open>
  The value \<^verbatim>\<open>aggregate_by_zip\<close> returns, with the default column names. The dates of the
  table are timestamps already, so \<^verbatim>\<open>pd.to_datetime(..., errors="coerce")\<close> leaves them as
  they are. \<^verbatim>\<open>dropna(subset=[inspection_date, zipcode])\<close> removes the rows in which either
  cell is missing.
\<close>

definition dropna_date_zip :: "row list \<Rightarrow> row list" where
  "dropna_date_zip rs = filter (\<lambda>r. inspection_date r \<noteq> None \<and> zipcode r \<noteq> None) rs"

definition aggregate_by_zip :: "(timestamp \<Rightarrow> timestamp) \<Rightarrow> frame \<Rightarrow> error + zip_period list" where
  "aggregate_by_zip to_period_start df =
     (if ''inspection_date'' \<in> set (columns df) \<and> ''zipcode'' \<in> set (columns df)
      then let kept = dropna_date_zip (rows df)
           in if set [''hygiene_index'', ''inspection_number'', ''camis'', ''score'',
                      ''critical_violations'', ''action''] \<subseteq> set (columns df)
              then Inr (map (zp_row to_period_start kept) (zp_keys to_period_start kept))
              else Inl KeyError
      else Inl KeyError)"

section \<open>Zip resolution (\<^verbatim>\<open>cleaning.py\<close>, \<^verbatim>\<open>spatially_join_zip\<close>)\<close>

text \<open>
  The cleaning stage works on the table as \<^verbatim>\<open>load_csv\<close> reads it, every cell a text
  (\<^verbatim>\<open>dtype=str\<close>) or missing: a row maps a column name to its cell.
\<close>

type_synonym raw_row = "string \<Rightarrow> string option"

record raw_frame =
  raw_columns :: "string list"
  raw_rows :: "raw_row list"

definition get_cell :: "string \<Rightarrow> raw_row \<Rightarrow> string option" where
  "get_cell c r = r c"

text \<open>
  \<^verbatim>\<open>.astype(str).str.slice(0,5).str.zfill(5)\<close>: \<^verbatim>\<open>astype(str)\<close> writes a missing cell as the
  text \<^verbatim>\<open>nan\<close>; \<^verbatim>\<open>zfill\<close> pads with zeros on the left, after a leading sign.
\<close>

definition astype_str :: "string option \<Rightarrow> string" where
  "astype_str cell = (case cell of None \<Rightarrow> ''nan'' | Some s \<Rightarrow> s)"

definition zfill :: "nat \<Rightarrow> string \<Rightarrow> string" where
  "zfill w s =
     (if w \<le> length s then s
      else (case s of [] \<Rightarrow> replicate w (CHR ''0'')
            | c # cs \<Rightarrow>
                if c = CHR ''+'' \<or> c = CHR ''-''
                then c # replicate (w - length s) (CHR ''0'') @ cs
                else replicate (w - length s) (CHR ''0'') @ s))"

definition zip5 :: "string option \<Rightarrow> string" where
  "zip5 cell = zfill 5 (take 5 (astype_str cell))"

definition set_zipcode :: "(raw_row \<Rightarrow> string option) \<Rightarrow> raw_frame \<Rightarrow> raw_frame" where
  "set_zipcode f t =
     \<lparr>raw_columns = add_column ''zipcode'' (raw_columns t),
      raw_rows = map (\<lambda>r. r(''zipcode'' := f r)) (raw_rows t)\<rparr>"

text \<open>Lines 66 to 69: the existing columns.\<close>

definition use_existing_zip :: "raw_frame \<Rightarrow> raw_frame" where
  "use_existing_zip df =
     (if ''zipcode'' \<in> set (raw_columns df)
      then set_zipcode (\<lambda>r. Some (zip5 (r ''zipcode''))) df
      else if ''postal_code'' \<in> set (raw_columns df)
      then set_zipcode (\<lambda>r. Some (zip5 (r ''postal_code''))) df
      else df)"

text \<open>
  What the function sees of the shapefile and of geopandas: whether the path exists,
  whether the file has a geometry, the names of its attribute columns, and for a point,
  given by its longitude and latitude cells, the attribute rows of the polygons that contain
  it (none when a coordinate is missing or does not parse).
\<close>

record zip_source =
  path_exists :: bool
  has_geometry :: bool
  zip_columns :: "string list"
  containing :: "string option \<Rightarrow> string option \<Rightarrow> raw_row list"

text \<open>
  \<^verbatim>\<open>gpd.sjoin(gdf, zips, how="left", predicate="within")\<close>: every row of the table is kept,
  once for each polygon that contains its point, or once with missing attributes when none
  does. A column name that both sides have gets the suffix \<^verbatim>\<open>_left\<close> or \<^verbatim>\<open>_right\<close>.
\<close>

definition left_name :: "string list \<Rightarrow> string \<Rightarrow> string" where
  "left_name rcols c = (if c \<in> set rcols then c @ ''_left'' else c)"

definition right_name :: "string list \<Rightarrow> string \<Rightarrow> string" where
  "right_name lcols c = (if c \<in> set lcols then c @ ''_right'' else c)"

definition sjoin_row :: "string list \<Rightarrow> string list \<Rightarrow> raw_row \<Rightarrow> raw_row \<Rightarrow> raw_row" where
  "sjoin_row lcols rcols l r =
     (\<lambda>n. case find (\<lambda>c. left_name rcols c = n) lcols of Some c \<Rightarrow> l c
           | None \<Rightarrow> (case find (\<lambda>c. right_name lcols c = n) rcols of Some c \<Rightarrow> r c
                      | None \<Rightarrow> None))"

definition sjoin :: "raw_frame \<Rightarrow> zip_source \<Rightarrow> raw_frame" where
  "sjoin df src =
     (let lcols = raw_columns df; rcols = zip_columns src
      in \<lparr>raw_columns = map (left_name rcols) lcols @ [''geometry'', ''index_right'']
                          @ map (right_name lcols) rcols,
          raw_rows = concat (map (\<lambda>l.
             case containing src (l ''longitude'') (l ''latitude'') of
               [] \<Rightarrow> [sjoin_row lcols rcols l (\<lambda>n. None)]
             | m # ms \<Rightarrow> map (sjoin_row lcols rcols l) (m # ms)) (raw_rows df))\<rparr>)"

definition drop_columns :: "string list \<Rightarrow> raw_frame \<Rightarrow> raw_frame" where
  "drop_columns names t =
     \<lparr>raw_columns = filter (\<lambda>c. c \<notin> set names) (raw_columns t),
      raw_rows = map (\<lambda>r n. if n \<in> set names then None else r n) (raw_rows t)\<rparr>"

text \<open>
  The table \<^verbatim>\<open>spatially_join_zip\<close> returns; the source writes the zipcode column into its
  argument as well. \<open>None\<close> is a call without shapefile. The conversion of the coordinate
  columns to numbers is part of \<open>containing\<close>; their cells keep their text here.
\<close>

definition spatially_join_zip :: "zip_source option \<Rightarrow> raw_frame \<Rightarrow> error + raw_frame" where
  "spatially_join_zip zip_shapefile df0 =
     (let df = use_existing_zip df0
      in case zip_shapefile of None \<Rightarrow> Inr df
         | Some src \<Rightarrow>
             if \<not> path_exists src then Inr df
             else if \<not> has_geometry src then Inl RuntimeError
             else if ''latitude'' \<in> set (raw_columns df) \<and> ''longitude'' \<in> set (raw_columns df)
             then let joined = sjoin df src
                  in Inr (drop_columns [''geometry'', ''index_right'']
                       (case find (\<lambda>c. c \<in> set (raw_columns joined))
                               [''ZIPCODE'', ''ZIP'', ''zip'', ''zipcode''] of
                          None \<Rightarrow> joined
                        | Some zip_field \<Rightarrow> set_zipcode (\<lambda>j. Some (zip5 (j zip_field))) joined))
             else Inr df)"

text \<open>The zipcodes after a join with a shapefile that supplies the column \<^verbatim>\<open>ZIPCODE\<close>: for
  every row of the table, those of the polygons around its point.\<close>

definition joined_zipcodes :: "zip_source \<Rightarrow> raw_row \<Rightarrow> string option list" where
  "joined_zipcodes src l =
     (case containing src (l ''longitude'') (l ''latitude'') of
        [] \<Rightarrow> [Some (zip5 None)]
      | m # ms \<Rightarrow> map (\<lambda>m. Some (zip5 (m ''ZIPCODE''))) (m # ms))"

text \<open>When the function joins the table with the shapefile.\<close>

definition spatial_join_runs :: "zip_source option \<Rightarrow> raw_frame \<Rightarrow> bool" where
  "spatial_join_runs zip_shapefile df =
     (case zip_shapefile of None \<Rightarrow> False
      | Some src \<Rightarrow> path_exists src \<and> has_geometry src
          \<and> ''latitude'' \<in> set (raw_columns df) \<and> ''longitude'' \<in> set (raw_columns df))"

section \<open>Tables as objects\<close>

text \<open>
  A table is an object: a name bound to it refers to a place in the store, \<^verbatim>\<open>df.copy()\<close>
  makes a new object with the same content, and \<^verbatim>\<open>df[name] = values\<close> changes the object
  \<open>df\<close> refers to. The store is the list of the objects made so far; a reference is an
  index into it.
\<close>

type_synonym heap = "frame list"

definition new_object :: "heap \<Rightarrow> frame \<Rightarrow> heap \<times> nat" where
  "new_object h t = (h @ [t], length h)"

definition df_copy :: "heap \<Rightarrow> nat \<Rightarrow> heap \<times> nat" where
  "df_copy h a = new_object h (h ! a)"

definition assign :: "heap \<Rightarrow> nat \<Rightarrow> (frame \<Rightarrow> frame) \<Rightarrow> heap" where
  "assign h a f = h[a := f (h ! a)]"

text \<open>
  \<^verbatim>\<open>build_establishment_history\<close>, statement by statement: the argument is copied, the
  selection of its columns is copied, \<^verbatim>\<open>sort_values\<close> and \<^verbatim>\<open>groupby(...).agg(...)\<close> make new
  tables, and the column assignments change the sorted tables.
\<close>

definition build_establishment_history_heap :: "heap \<Rightarrow> nat \<Rightarrow> heap \<times> (error + nat)" where
  "build_establishment_history_heap h df0 =
     (let (h1, df) = df_copy h df0;
          (h2, df_sub) = new_object h1 (reorder_columns (h1 ! df))
      in case sort_frame (h2 ! df_sub) of Inl e \<Rightarrow> (h2, Inl e)
         | Inr t \<Rightarrow>
             (let (h3, df_sub) = new_object h2 t;
                  h4 = assign h3 df_sub lag_columns
              in case groupby_agg (h4 ! df_sub) of Inl e \<Rightarrow> (h4, Inl e)
                 | Inr a \<Rightarrow>
                     (let (h5, agg) = new_object h4 a
                      in case sort_frame (h5 ! agg) of Inl e \<Rightarrow> (h5, Inl e)
                         | Inr a' \<Rightarrow>
                             (let (h6, agg) = new_object h5 a';
                                  h7 = assign h6 agg lag_columns
                              in (h7, Inr agg)))))"

text \<open>\<^verbatim>\<open>compute_hygiene_index\<close>, statement by statement.\<close>

definition compute_hygiene_index_heap ::
  "rat \<Rightarrow> rat \<Rightarrow> rat \<Rightarrow> heap \<Rightarrow> nat \<Rightarrow> heap \<times> (error + nat)" where
  "compute_hygiene_index_heap weight_score weight_critical weight_violation_count h df0 =
     (let (h1, df) = df_copy h df0
      in if ''score'' \<in> set (columns (h1 ! df))
         then let h2 = assign h1 df set_score_filled
              in if ''critical_violations'' \<in> set (columns (h2 ! df))
                    \<and> ''violation_count'' \<in> set (columns (h2 ! df))
                 then let h3 = assign h2 df (set_hygiene_index_raw weight_score weight_critical
                                               weight_violation_count);
                          h4 = assign h3 df set_hygiene_index
                      in (h4, Inr df)
                 else (h2, Inl KeyError)
         else (h1, Inl KeyError))"


text \<open>A row without the three columns that \<^verbatim>\<open>compute_hygiene_index\<close> writes.\<close>

definition without_index_columns :: "row \<Rightarrow> row" where
  "without_index_columns r =
     r\<lparr>score_filled := None, hygiene_index_raw := None, hygiene_index := None\<rparr>"

section \<open>Example tables\<close>

text \<open>Midnight of the \<open>n\<close>-th day after the epoch; 2023-01-10 is day 19367 and 2023-03-15
  is day 19431.\<close>

definition day :: "int \<Rightarrow> timestamp" where
  "day n = n * ns_per_day"

text \<open>
  A table with one row per violation: establishment E1 has two rows on 2023-01-10, the
  second without violation code, one row on 2023-03-15 and one row without date;
  establishment E2 has one row.
\<close>

definition example_table :: frame where
  "example_table = \<lparr>columns = required_cols, rows =
     [null_row\<lparr>camis := Some ''E1'', inspection_date := Some (day 19431), score := Some 10,
        violation_code := Some ''10F'', violation_description := Some ''clean counters'',
        is_critical_description := Some False\<rparr>,
      null_row\<lparr>camis := Some ''E2'', inspection_date := Some (day 19400), score := Some 7,
        violation_code := Some ''02G'', violation_description := Some ''cold food held warm'',
        is_critical_description := Some False\<rparr>,
      null_row\<lparr>camis := Some ''E1'', inspection_date := Some (day 19367), score := Some 50,
        violation_code := Some ''04L'',
        violation_description := Some ''Evidence of rodent activity'',
        is_critical_description := Some True\<rparr>,
      null_row\<lparr>camis := Some ''E1'', inspection_date := None, score := Some 3,
        violation_code := Some ''04M'', violation_description := Some ''live roaches'',
        is_critical_description := Some True\<rparr>,
      null_row\<lparr>camis := Some ''E1'', inspection_date := Some (day 19367), score := Some 50,
        violation_code := None, violation_description := Some ''major sewage backup'',
        is_critical_description := Some True\<rparr>]\<rparr>"

text \<open>
  A raw table of one record with an explicit zipcode and coordinates, a raw table of one
  record without zipcode, and a shapefile whose only polygon, with \<^verbatim>\<open>ZIPCODE\<close> 10002,
  contains the point of the first record.
\<close>

definition example_record :: raw_row where
  "example_record = [''camis'' \<mapsto> ''E1'', ''inspection_date'' \<mapsto> ''2023-01-10'',
     ''zipcode'' \<mapsto> ''10001'', ''latitude'' \<mapsto> ''40.75'', ''longitude'' \<mapsto> ''-73.99'']"

definition example_raw_table :: raw_frame where
  "example_raw_table = \<lparr>raw_columns = [''camis'', ''inspection_date'', ''zipcode'', ''latitude'',
       ''longitude''], raw_rows = [example_record]\<rparr>"

definition example_record_without_zip :: raw_row where
  "example_record_without_zip = [''camis'' \<mapsto> ''E1'', ''inspection_date'' \<mapsto> ''2023-01-10'']"

definition example_raw_table_without_zip :: raw_frame where
  "example_raw_table_without_zip = \<lparr>raw_columns = [''camis'', ''inspection_date'', ''zipcode''],
       raw_rows = [example_record_without_zip]\<rparr>"

definition example_polygon :: raw_row where
  "example_polygon = [''ZIPCODE'' \<mapsto> ''10002'']"

definition example_zips :: zip_source where
  "example_zips = \<lparr>path_exists = True, has_geometry = True, zip_columns = [''ZIPCODE''],
     containing = (\<lambda>lon lat. if lon = Some ''-73.99'' \<and> lat = Some ''40.75''
                             then [example_polygon] else [])\<rparr>"

text \<open>
  A table of visits for the Aggregator: one visit with zipcode and date, one without zipcode
  and one without date; and the aggregates of the first.
\<close>

definition example_visits :: frame where
  "example_visits = \<lparr>columns = [''camis'', ''inspection_date'', ''zipcode'', ''score'',
       ''action'', ''critical_violations'', ''inspection_number'', ''hygiene_index''], rows =
     [null_row\<lparr>camis := Some ''E1'', inspection_date := Some (day 19367),
        zipcode := Some ''10001'', score := Some 12, critical_violations := Some 1,
        inspection_number := Some 1, hygiene_index := Some 40,
        action := Some ''Violations were cited''\<rparr>,
      null_row\<lparr>camis := Some ''E2'', inspection_date := Some (day 19367), zipcode := None,
        score := Some 30, critical_violations := Some 3, inspection_number := Some 1,
        hygiene_index := Some 90, action := Some ''Establishment Closed by DOHMH''\<rparr>,
      null_row\<lparr>camis := Some ''E3'', inspection_date := None, zipcode := Some ''10001'',
        score := Some 20, critical_violations := Some 2, inspection_number := Some 1,
        hygiene_index := Some 60\<rparr>]\<rparr>"

definition example_aggregates :: "zip_period list" where
  "example_aggregates =
     [\<lparr>agg_zipcode = ''10001'', period = day 19358, mean_hygiene_index = Some 40,
        median_hygiene_index = Some 40, inspections = 1, unique_establishments = 1,
        mean_score = Some 12, mean_critical_violations = Some 1, closure_share = Some 0\<rparr>]"

definition example_history :: frame where
  "example_history = \<lparr>columns = agg_columns @ [''inspection_number'', ''prev_inspection_date'',
       ''days_since_prev''], rows =
     [null_row\<lparr>camis := Some ''E1'', inspection_date := Some (day 19367), score := Some 50,
        violation_count := Some 1, critical_violations := Some 2,
        inspection_number := Some 1\<rparr>,
      null_row\<lparr>camis := Some ''E1'', inspection_date := Some (day 19431), score := Some 10,
        violation_count := Some 1, critical_violations := Some 0,
        inspection_number := Some 2, prev_inspection_date := Some (day 19367),
        days_since_prev := Some 64\<rparr>,
      null_row\<lparr>camis := Some ''E2'', inspection_date := Some (day 19400), score := Some 7,
        violation_count := Some 1, critical_violations := Some 0,
        inspection_number := Some 1\<rparr>]\<rparr>"

section \<open>Facts about the History Builder\<close>

subsection \<open>Day differences\<close>

text \<open>Between two midnights the day difference is the difference of the day numbers.\<close>

lemma days_between_day: "days_between (Some (day x)) (Some (day y)) = Some (x - y)"
proof -
  have "day x - day y = (x - y) * ns_per_day"
    by (simp add: day_def algebra_simps)
  then have "(day x - day y) div ns_per_day = x - y"
    by (simp add: ns_per_day_def)
  then show ?thesis
    by (simp add: days_between_def)
qed

subsection \<open>Lag leaves the other columns alone\<close>

lemma lag_row_fields [simp]:
  "camis (lag_row s r) = camis r"
  "inspection_date (lag_row s r) = inspection_date r"
  "score (lag_row s r) = score r"
  "grade (lag_row s r) = grade r"
  "action (lag_row s r) = action r"
  "violation_code (lag_row s r) = violation_code r"
  "violation_description (lag_row s r) = violation_description r"
  "is_critical_description (lag_row s r) = is_critical_description r"
  "violation_count (lag_row s r) = violation_count r"
  "critical_violations (lag_row s r) = critical_violations r"
  by (simp_all add: lag_row_def Let_def)

lemma row_key_lag_row [simp]: "row_key (lag_row s r) = row_key r"
  by (simp add: row_key_def split: option.splits)

lemma length_lag_rows [simp]: "length (lag_rows s rs) = length rs"
  by (induction rs arbitrary: s) simp_all

lemma lag_rows_nth:
  "k < length rs \<Longrightarrow> lag_rows s rs ! k = lag_row (s @ take k rs) (rs ! k)"
proof (induction rs arbitrary: s k)
  case Nil
  then show ?case by simp
next
  case (Cons r rs)
  show ?case
  proof (cases k)
    case 0
    then show ?thesis by simp
  next
    case (Suc j)
    with Cons.prems have "j < length rs" by simp
    from Cons.IH [OF this, of "s @ [r]"] Suc show ?thesis by simp
  qed
qed

lemma map_lag_rows:
  assumes "\<And>s r. f (lag_row s r) = f r"
  shows "map f (lag_rows s rs) = map f rs"
  by (induction rs arbitrary: s) (simp_all add: assms)

lemma map_filter_key_lag_rows:
  assumes "\<And>s r. f (lag_row s r) = f r"
  shows "map f (filter (\<lambda>r. row_key r = k) (lag_rows s rs))
       = map f (filter (\<lambda>r. row_key r = k) rs)"
  by (induction rs arbitrary: s) (simp_all add: assms)

lemma filter_camis_lag_rows:
  "filter (\<lambda>v. camis v = Some c) (lag_rows s rs)
     = lag_rows (filter (\<lambda>v. camis v = Some c) s) (filter (\<lambda>v. camis v = Some c) rs)"
proof (induction rs arbitrary: s)
  case Nil
  then show ?case by simp
next
  case (Cons r rs)
  have "camis r = Some c \<Longrightarrow> lag_row s r = lag_row (filter (\<lambda>v. camis v = Some c) s) r"
    by (simp add: lag_row_def)
  with Cons.IH [of "s @ [r]"] show ?case by simp
qed

subsection \<open>Group keys\<close>

lemma map_filter_row_key_lag_rows:
  "List.map_filter row_key (lag_rows s rs) = List.map_filter row_key rs"
  by (induction rs arbitrary: s) (simp_all add: List.map_filter_simps split: option.splits)

lemma group_keys_lag_rows [simp]: "group_keys (lag_rows s rs) = group_keys rs"
  by (simp add: group_keys_def map_filter_row_key_lag_rows)

lemma set_map_filter_row_key:
  "set (List.map_filter row_key rs)
     = {(c, d). \<exists>r\<in>set rs. camis r = Some c \<and> inspection_date r = Some d}"
  by (force simp: List.map_filter_def row_key_def image_iff split: option.splits)

lemma group_keys_eq:
  "group_keys rs = sorted_list_of_set
     {(c, d). \<exists>r\<in>set rs. camis r = Some c \<and> inspection_date r = Some d}"
  by (simp add: group_keys_def sorted_list_of_set_sort_remdups [symmetric]
      set_map_filter_row_key)

lemma group_keys_sort_values [simp]: "group_keys (sort_values rs) = group_keys rs"
  by (simp add: group_keys_eq sort_values_def)

lemma set_group_keys:
  "set (group_keys rs) = {(c, d). \<exists>r\<in>set rs. camis r = Some c \<and> inspection_date r = Some d}"
  by (simp add: group_keys_def set_map_filter_row_key)

lemma strict_sorted_group_keys: "sorted_wrt (<) (group_keys rs)"
  by (simp add: group_keys_def strict_sorted_iff)


subsection \<open>The shape of the result\<close>

lemma set_columns_reorder [simp]: "set (columns (reorder_columns t)) = set (columns t)"
  by (auto simp: reorder_columns_def Let_def)

lemma rows_reorder [simp]: "rows (reorder_columns t) = rows t"
  by (simp add: reorder_columns_def Let_def)

lemma rows_lag_columns [simp]: "rows (lag_columns t) = lag_rows [] (rows t)"
  by (simp add: lag_columns_def)

lemma set_columns_lag [simp]:
  "set (columns (lag_columns t))
     = set (columns t) \<union> {''inspection_number'', ''prev_inspection_date'', ''days_since_prev''}"
  by (auto simp: lag_columns_def add_column_def)

lemma agg_row_fields [simp]:
  "camis (agg_row b rs k) = Some (fst k)"
  "inspection_date (agg_row b rs k) = Some (snd k)"
  "violation_count (agg_row b rs k)
     = Some (if b then count_valid (map violation_code (group_rows k rs))
             else count_valid (map violation_description (group_rows k rs)))"
  by (simp_all add: agg_row_def Let_def)

lemma sort_key_of_agg_row [simp]:
  "sort_key_of (agg_row b rs k) = ((False, Some (fst k)), (False, Some (snd k)))"
  by (simp add: sort_key_of_def)

lemma sort_values_agg_rows:
  assumes "sorted ks"
  shows "sort_values (map (agg_row b rs) ks) = map (agg_row b rs) ks"
proof -
  have "sorted_wrt (\<lambda>x y. ((False, Some (fst x)), (False, Some (snd x)))
                      \<le> ((False, Some (fst y)), (False, Some (snd y)))) ks"
    using assms by (rule sorted_wrt_mono_rel [rotated]) (auto simp: less_eq_prod_def)
  then have "sorted (map (\<lambda>k. ((False, Some (fst k)), (False, Some (snd k)))) ks)"
    by (simp add: sorted_map)
  then have "sorted (map sort_key_of (map (agg_row b rs) ks))"
    by (simp add: comp_def)
  then show ?thesis
    unfolding sort_values_def by (rule sort_key_id_if_sorted)
qed

lemma groupby_agg_rows:
  assumes "groupby_agg t = Inr a"
  shows "rows a = map (agg_row (by_code t) (rows t)) (group_keys (rows t))"
  using assms by (auto simp: groupby_agg_def by_code_def split: if_splits)

lemma sort_frame_Inr:
  assumes "sort_frame t = Inr u"
  shows "rows u = sort_values (rows t)" and "columns u = columns t"
  using assms by (auto simp: sort_frame_def split: if_splits)

lemma by_code_lag_columns [simp]: "by_code (lag_columns t) = by_code t"
  by (simp add: by_code_def)

lemma by_code_reorder_columns [simp]: "by_code (reorder_columns t) = by_code t"
  by (simp add: by_code_def)

lemma build_establishment_history_rows:
  assumes "build_establishment_history df = Inr out"
  shows "rows out = lag_rows []
           (map (agg_row (by_code df) (lag_rows [] (sort_values (rows df))))
              (group_keys (rows df)))"
proof -
  obtain df_sorted where s1: "sort_frame (reorder_columns df) = Inr df_sorted"
    using assms by (cases "sort_frame (reorder_columns df)")
      (simp_all add: build_establishment_history_def)
  obtain agg where g: "groupby_agg (lag_columns df_sorted) = Inr agg"
    using assms s1 by (cases "groupby_agg (lag_columns df_sorted)")
      (simp_all add: build_establishment_history_def)
  obtain agg_sorted where s2: "sort_frame agg = Inr agg_sorted"
    using assms s1 g by (cases "sort_frame agg")
      (simp_all add: build_establishment_history_def)
  have out: "out = lag_columns agg_sorted"
    using assms s1 g s2 by (simp add: build_establishment_history_def)
  have bc: "by_code df_sorted = by_code df"
    using sort_frame_Inr(2) [OF s1] by (simp add: by_code_def)
  have ra: "rows agg = map (agg_row (by_code df) (lag_rows [] (sort_values (rows df))))
                      (group_keys (rows df))"
    using groupby_agg_rows [OF g] sort_frame_Inr(1) [OF s1] bc by simp
  have "sorted (group_keys (rows df))"
    using strict_sorted_group_keys by (rule strict_sorted_imp_sorted)
  then have "rows agg_sorted = map (agg_row (by_code df) (lag_rows [] (sort_values (rows df))))
                      (group_keys (rows df))"
    using sort_frame_Inr(1) [OF s2] ra by (simp add: sort_values_agg_rows)
  with out show ?thesis by simp
qed

subsection \<open>The visits of one establishment\<close>

lemma strict_sorted_dates_of: "sorted_wrt (<) (dates_of c rs)"
proof -
  have "sorted_wrt (<) (filter (\<lambda>k. fst k = c) (group_keys rs))"
    using strict_sorted_group_keys by (rule sorted_wrt_filter)
  then have "sorted_wrt (\<lambda>x y. snd x < snd y) (filter (\<lambda>k. fst k = c) (group_keys rs))"
    by (rule sorted_wrt_mono_rel [rotated]) (auto simp: less_prod_def)
  then show ?thesis
    by (simp add: dates_of_def sorted_wrt_map)
qed

lemma set_dates_of:
  "set (dates_of c rs) = {d. \<exists>r\<in>set rs. camis r = Some c \<and> inspection_date r = Some d}"
  by (force simp: dates_of_def set_group_keys)

lemma lag_row_same_establishment:
  assumes "\<forall>q\<in>set s. camis q = Some c" and "camis r = Some c"
  shows "inspection_number (lag_row s r) = Some (int (length s) + 1)"
    and "prev_inspection_date (lag_row s r) = (if s = [] then None else inspection_date (last s))"
    and "days_since_prev (lag_row s r)
           = days_between (inspection_date r) (if s = [] then None else inspection_date (last s))"
proof -
  from assms have "filter (\<lambda>q. camis q = camis r) s = s"
    by (simp add: filter_id_conv)
  then show "inspection_number (lag_row s r) = Some (int (length s) + 1)"
    and "prev_inspection_date (lag_row s r) = (if s = [] then None else inspection_date (last s))"
    and "days_since_prev (lag_row s r)
           = days_between (inspection_date r) (if s = [] then None else inspection_date (last s))"
    using assms(2) by (simp_all add: lag_row_def Let_def)
qed

lemma visits_of_establishment:
  fixes c :: string
  assumes "build_establishment_history df = Inr out"
  defines "vs \<equiv> filter (\<lambda>v. camis v = Some c) (rows out)"
  defines "ds \<equiv> dates_of c (rows df)"
  shows "length vs = length ds"
    and "\<And>k. k < length ds \<Longrightarrow> camis (vs ! k) = Some c"
    and "\<And>k. k < length ds \<Longrightarrow> inspection_date (vs ! k) = Some (ds ! k)"
    and "\<And>k. k < length ds \<Longrightarrow> inspection_number (vs ! k) = Some (int k + 1)"
    and "\<And>k. k < length ds \<Longrightarrow> prev_inspection_date (vs ! k)
            = (if k = 0 then None else Some (ds ! (k - 1)))"
    and "\<And>k. k < length ds \<Longrightarrow> days_since_prev (vs ! k)
            = (if k = 0 then None else Some ((ds ! k - ds ! (k - 1)) div ns_per_day))"
proof -
  define kc where "kc = filter (\<lambda>k. fst k = c) (group_keys (rows df))"
  define ys where "ys = map (agg_row (by_code df) (lag_rows [] (sort_values (rows df)))) kc"
  have ds: "ds = map snd kc"
    by (simp add: ds_def dates_of_def kc_def)
  have vs: "vs = lag_rows [] ys"
    unfolding vs_def build_establishment_history_rows [OF assms(1)]
    by (simp add: filter_camis_lag_rows filter_map comp_def ys_def kc_def)
  have cam: "\<forall>q\<in>set ys. camis q = Some c"
    by (auto simp: ys_def kc_def)
  show len: "length vs = length ds"
    by (simp add: vs ds ys_def)
  fix k assume k: "k < length ds"
  then have ky: "k < length ys" by (simp add: ds ys_def)
  have nth: "vs ! k = lag_row (take k ys) (ys ! k)"
    using ky by (simp add: vs lag_rows_nth)
  have date: "inspection_date (ys ! k) = Some (ds ! k)"
    using k by (simp add: ys_def ds)
  have c1: "\<forall>q\<in>set (take k ys). camis q = Some c"
    using cam by (meson in_set_takeD)
  have c2: "camis (ys ! k) = Some c"
    using cam ky by simp
  show "camis (vs ! k) = Some c"
    by (simp add: nth c2)
  show "inspection_date (vs ! k) = Some (ds ! k)"
    by (simp add: nth date)
  show "inspection_number (vs ! k) = Some (int k + 1)"
    using ky by (simp add: nth lag_row_same_establishment(1) [OF c1 c2])
  have prev: "(if take k ys = [] then None else inspection_date (last (take k ys)))
                = (if k = 0 then None else Some (ds ! (k - 1)))"
  proof (cases k)
    case 0
    then show ?thesis by simp
  next
    case (Suc j)
    with ky have "last (take k ys) = ys ! j"
      by (simp add: take_Suc_conv_app_nth)
    moreover have "inspection_date (ys ! j) = Some (ds ! j)"
      using k Suc by (simp add: ys_def ds)
    ultimately show ?thesis
      using Suc ky by auto
  qed
  show "prev_inspection_date (vs ! k) = (if k = 0 then None else Some (ds ! (k - 1)))"
    by (simp only: nth lag_row_same_establishment(2) [OF c1 c2] prev)
  show "days_since_prev (vs ! k)
          = (if k = 0 then None else Some ((ds ! k - ds ! (k - 1)) div ns_per_day))"
    by (simp only: nth lag_row_same_establishment(3) [OF c1 c2] prev date)
       (simp add: days_between_def)
qed


subsection \<open>When the function returns\<close>

lemma sort_frame_agg:
  "sort_frame \<lparr>columns = agg_columns, rows = rs\<rparr>
     = Inr \<lparr>columns = agg_columns, rows = sort_values rs\<rparr>"
  by (simp add: sort_frame_def agg_columns_def)

lemma build_establishment_history_returns:
  "build_establishment_history df = Inr out \<Longrightarrow> history_columns_present df"
  by (auto simp: build_establishment_history_def sort_frame_def groupby_agg_def
      history_columns_present_def split: sum.splits if_splits)

lemma build_establishment_history_total:
  assumes "history_columns_present df"
  shows "\<exists>out. build_establishment_history df = Inr out"
proof -
  from assms have "sort_frame (reorder_columns df)
      = Inr ((reorder_columns df)\<lparr>rows := sort_values (rows (reorder_columns df))\<rparr>)"
    by (simp add: sort_frame_def history_columns_present_def)
  moreover from assms have "\<exists>rs. groupby_agg (lag_columns
      ((reorder_columns df)\<lparr>rows := sort_values (rows (reorder_columns df))\<rparr>))
        = Inr \<lparr>columns = agg_columns, rows = rs\<rparr>"
    by (auto simp: groupby_agg_def history_columns_present_def)
  ultimately show ?thesis
    by (auto simp: build_establishment_history_def sort_frame_agg)
qed

lemma build_establishment_history_error:
  "build_establishment_history df = Inl e \<Longrightarrow> e = KeyError"
  by (auto simp: build_establishment_history_def sort_frame_def groupby_agg_def
      split: sum.splits if_splits)


subsection \<open>Counting within a group\<close>

lemma length_filter_sort_key: "length (filter P (sort_key f xs)) = length (filter P xs)"
proof -
  have "mset (filter P (sort_key f xs)) = mset (filter P xs)"
    by (simp add: mset_filter)
  then show ?thesis
    by (rule mset_eq_length)
qed

lemma count_valid_group:
  assumes "\<And>s r. f (lag_row s r) = f r"
  shows "count_valid (map f (group_rows k (lag_rows s (sort_values rs))))
           = int (length (filter (\<lambda>r. row_key r = Some k \<and> f r \<noteq> None) rs))"
proof -
  have "map f (group_rows k (lag_rows s (sort_values rs))) = map f (group_rows k (sort_values rs))"
    unfolding group_rows_def using assms by (rule map_filter_key_lag_rows)
  then have "count_valid (map f (group_rows k (lag_rows s (sort_values rs))))
      = int (length (filter (\<lambda>r. row_key r = Some k \<and> f r \<noteq> None) (sort_values rs)))"
    by (simp add: count_valid_def group_rows_def filter_map comp_def conj_commute)
  then show ?thesis
    by (simp add: sort_values_def length_filter_sort_key)
qed

lemma row_key_Some_iff:
  "row_key r = Some k \<longleftrightarrow> camis r = Some (fst k) \<and> inspection_date r = Some (snd k)"
  by (cases k) (auto simp: row_key_def split: option.splits)

lemma visit_in_history:
  assumes "build_establishment_history df = Inr out" and "v \<in> set (rows out)"
  obtains k where "k \<in> set (group_keys (rows df))"
    and "camis v = Some (fst k)" and "inspection_date v = Some (snd k)"
    and "violation_count v = violation_count
           (agg_row (by_code df) (lag_rows [] (sort_values (rows df))) k)"
proof -
  let ?ys = "map (agg_row (by_code df) (lag_rows [] (sort_values (rows df))))
               (group_keys (rows df))"
  from assms obtain i where i: "i < length ?ys" and v: "v = lag_rows [] ?ys ! i"
    by (auto simp: build_establishment_history_rows in_set_conv_nth)
  then have "v = lag_row (take i ?ys) (?ys ! i)"
    by (simp add: lag_rows_nth)
  moreover from i have "group_keys (rows df) ! i \<in> set (group_keys (rows df))"
    by simp
  ultimately show thesis
    using i by (intro that [of "group_keys (rows df) ! i"]) simp_all
qed


subsection \<open>The numbering depends on the establishments and dates only\<close>

lemma lag_row_cong:
  assumes s: "map (\<lambda>r. (camis r, inspection_date r)) s = map (\<lambda>r. (camis r, inspection_date r)) s'"
    and x: "camis x = camis y" "inspection_date x = inspection_date y"
  shows "inspection_number (lag_row s x) = inspection_number (lag_row s' y)"
    and "prev_inspection_date (lag_row s x) = prev_inspection_date (lag_row s' y)"
    and "days_since_prev (lag_row s x) = days_since_prev (lag_row s' y)"
proof -
  let ?cd = "\<lambda>r. (camis r, inspection_date r)"
  let ?P = "\<lambda>q. camis q = camis x"
  have f: "map ?cd (filter ?P t) = filter (\<lambda>p. fst p = camis x) (map ?cd t)" for t
    by (simp add: filter_map comp_def)
  from s have eq: "map ?cd (filter ?P s) = map ?cd (filter ?P s')"
    by (simp only: f)
  then have len: "length (filter ?P s) = length (filter ?P s')"
    by (rule map_eq_imp_length_eq)
  then have nil: "filter ?P s = [] \<longleftrightarrow> filter ?P s' = []"
    by (metis length_0_conv)
  have last: "inspection_date (last (filter ?P s)) = inspection_date (last (filter ?P s'))"
    if "filter ?P s \<noteq> []"
  proof -
    from that nil have that': "filter ?P s' \<noteq> []" by simp
    have "last (map ?cd (filter ?P s)) = ?cd (last (filter ?P s))"
      using that by (rule last_map)
    moreover have "last (map ?cd (filter ?P s')) = ?cd (last (filter ?P s'))"
      using that' by (rule last_map)
    ultimately show ?thesis
      using eq by simp
  qed
  show "inspection_number (lag_row s x) = inspection_number (lag_row s' y)"
    using len x by (simp add: lag_row_def Let_def)
  show p: "prev_inspection_date (lag_row s x) = prev_inspection_date (lag_row s' y)"
    using nil last x by (auto simp: lag_row_def Let_def)
  have "days_since_prev (lag_row t r)
          = days_between (inspection_date r) (prev_inspection_date (lag_row t r))" for t r
    by (simp add: lag_row_def Let_def)
  with p x show "days_since_prev (lag_row s x) = days_since_prev (lag_row s' y)"
    by simp
qed

lemma lag_rows_cong:
  assumes "map (\<lambda>r. (camis r, inspection_date r)) s = map (\<lambda>r. (camis r, inspection_date r)) s'"
    and "map (\<lambda>r. (camis r, inspection_date r)) xs = map (\<lambda>r. (camis r, inspection_date r)) ys"
  shows "map (\<lambda>v. (camis v, inspection_date v, inspection_number v, days_since_prev v))
           (lag_rows s xs)
       = map (\<lambda>v. (camis v, inspection_date v, inspection_number v, days_since_prev v))
           (lag_rows s' ys)"
  using assms
proof (induction xs arbitrary: ys s s')
  case Nil
  then show ?case by simp
next
  case (Cons x xs)
  from Cons.prems(2) obtain y ys' where ys: "ys = y # ys'"
    and xy: "camis x = camis y" "inspection_date x = inspection_date y"
    and rest: "map (\<lambda>r. (camis r, inspection_date r)) xs
                 = map (\<lambda>r. (camis r, inspection_date r)) ys'"
    by (cases ys) auto
  from Cons.prems(1) xy
  have "map (\<lambda>r. (camis r, inspection_date r)) (s @ [x])
          = map (\<lambda>r. (camis r, inspection_date r)) (s' @ [y])"
    by simp
  from Cons.IH [OF this rest] lag_row_cong(1,3) [OF Cons.prems(1) xy] xy ys
  show ?case by simp
qed

lemma group_keys_cong: "set rs = set rs' \<Longrightarrow> group_keys rs = group_keys rs'"
  by (simp add: group_keys_eq)

lemma history_columns_present_cong:
  "set (columns df) = set (columns df') \<Longrightarrow> history_columns_present df = history_columns_present df'"
  by (simp add: history_columns_present_def)

lemma history_seq_eq:
  assumes "history_columns_present df"
  shows "history_seq (build_establishment_history df)
           = Inr (map (\<lambda>v. (camis v, inspection_date v, inspection_number v, days_since_prev v))
                    (lag_rows [] (map (agg_row False [])
                       (group_keys (rows df)))))"
proof -
  from build_establishment_history_total [OF assms]
  obtain out where out: "build_establishment_history df = Inr out" ..
  have "map (\<lambda>v. (camis v, inspection_date v, inspection_number v, days_since_prev v))
          (lag_rows [] (map (agg_row (by_code df) (lag_rows [] (sort_values (rows df))))
             (group_keys (rows df))))
      = map (\<lambda>v. (camis v, inspection_date v, inspection_number v, days_since_prev v))
          (lag_rows [] (map (agg_row False []) (group_keys (rows df))))"
    by (rule lag_rows_cong) (simp_all add: comp_def)
  then show ?thesis
    by (simp add: history_seq_def out build_establishment_history_rows [OF out])
qed

subsection \<open>The example\<close>

lemma example_history_built:
  "build_establishment_history example_table = Inr example_history"
  by code_simp

section \<open>Properties of the History Builder\<close>

text \<open>
  C1, as amended. When the table has a \<^verbatim>\<open>violation_code\<close> column, the violation count of a
  visit is the number of rows of its group whose violation code is not missing; otherwise
  it is the number of rows of its group whose violation description is not missing.
\<close>

theorem violation_count_of_visit:
  assumes "build_establishment_history df = Inr out" and "v \<in> set (rows out)"
  shows "violation_count v = Some (int (length (filter
           (\<lambda>r. camis r = camis v \<and> inspection_date r = inspection_date v
              \<and> (if ''violation_code'' \<in> set (columns df) then violation_code r \<noteq> None
                  else violation_description r \<noteq> None))
           (rows df))))"
proof -
  from assms obtain k where k: "camis v = Some (fst k)" "inspection_date v = Some (snd k)"
    and vc: "violation_count v = violation_count
           (agg_row (by_code df) (lag_rows [] (sort_values (rows df))) k)"
    by (rule visit_in_history)
  show ?thesis
  proof (cases "''violation_code'' \<in> set (columns df)")
    case True
    then have "violation_count v = Some (count_valid (map violation_code
                 (group_rows k (lag_rows [] (sort_values (rows df))))))"
      by (simp add: vc by_code_def)
    then show ?thesis
      using True k by (simp add: count_valid_group row_key_Some_iff conj_ac)
  next
    case False
    then have "violation_count v = Some (count_valid (map violation_description
                 (group_rows k (lag_rows [] (sort_values (rows df))))))"
      by (simp add: vc by_code_def)
    then show ?thesis
      using False k by (simp add: count_valid_group row_key_Some_iff conj_ac)
  qed
qed

theorem violation_count_of_visit_witness:
  "build_establishment_history example_table = Inr example_history
   \<and> rows example_history ! 0 \<in> set (rows example_history)
   \<and> violation_count (rows example_history ! 0) = Some (int (length (filter
           (\<lambda>r. camis r = camis (rows example_history ! 0)
              \<and> inspection_date r = inspection_date (rows example_history ! 0)
              \<and> (if ''violation_code'' \<in> set (columns example_table)
                  then violation_code r \<noteq> None else violation_description r \<noteq> None))
           (rows example_table))))"
proof -
  have v: "rows example_history ! 0 \<in> set (rows example_history)"
    by (simp add: example_history_def)
  from example_history_built v violation_count_of_visit [OF example_history_built v] show ?thesis
    by (intro conjI)
qed

text \<open>
  The claim as it was stated fails: a group of two rows of which one has a violation code
  gets the count 1, not the number of its rows.
\<close>

theorem violation_count_counterexample:
  "map_sum id (map violation_count \<circ> rows) (build_establishment_history
     \<lparr>columns = required_cols, rows =
        [null_row\<lparr>camis := Some ''E1'', inspection_date := Some 0,
           violation_code := Some ''04L'', violation_description := Some ''mice''\<rparr>,
         null_row\<lparr>camis := Some ''E1'', inspection_date := Some 0,
           violation_code := None, violation_description := Some ''flies''\<rparr>]\<rparr>)
   = Inr [Some 1]"
  by code_simp


text \<open>
  C2, as amended. A row whose inspection date (or establishment) is missing belongs to no
  group and gives no visit; the result has exactly one visit for every pair of an
  establishment and a date that occurs, both present, in a row of the table.
\<close>

theorem one_visit_per_dated_pair:
  assumes "build_establishment_history df = Inr out"
  shows "distinct (map (\<lambda>v. (camis v, inspection_date v)) (rows out))
       \<and> set (map (\<lambda>v. (camis v, inspection_date v)) (rows out))
           = {(Some c, Some d) | c d.
                \<exists>r\<in>set (rows df). camis r = Some c \<and> inspection_date r = Some d}"
proof -
  let ?ys = "map (agg_row (by_code df) (lag_rows [] (sort_values (rows df))))
               (group_keys (rows df))"
  have "map (\<lambda>v. (camis v, inspection_date v)) (lag_rows [] ?ys)
          = map (\<lambda>v. (camis v, inspection_date v)) ?ys"
    by (rule map_lag_rows) simp
  then have m: "map (\<lambda>v. (camis v, inspection_date v)) (rows out)
             = map (\<lambda>k. (Some (fst k), Some (snd k))) (group_keys (rows df))"
    by (simp add: build_establishment_history_rows [OF assms] comp_def)
  have "distinct (group_keys (rows df))"
    using strict_sorted_group_keys [of "rows df"] by (simp add: strict_sorted_iff)
  then have d: "distinct (map (\<lambda>k. (Some (fst k), Some (snd k))) (group_keys (rows df)))"
    by (simp add: distinct_map inj_on_def prod_eq_iff)
  have "(\<lambda>k. (Some (fst k), Some (snd k))) ` set (group_keys (rows df))
      = {(Some c, Some d) | c d.
           \<exists>r\<in>set (rows df). camis r = Some c \<and> inspection_date r = Some d}"
    unfolding set_group_keys by (rule set_eqI) (simp add: image_iff conj_commute)
  with d show ?thesis
    by (simp only: m set_map simp_thms)
qed

theorem one_visit_per_dated_pair_witness:
  "build_establishment_history example_table = Inr example_history
   \<and> distinct (map (\<lambda>v. (camis v, inspection_date v)) (rows example_history))
   \<and> set (map (\<lambda>v. (camis v, inspection_date v)) (rows example_history))
       = {(Some c, Some d) | c d.
            \<exists>r\<in>set (rows example_table). camis r = Some c \<and> inspection_date r = Some d}"
  using example_history_built one_visit_per_dated_pair [OF example_history_built] by (rule conjI)

text \<open>
  The claim as it was stated fails: the only row of this table has no inspection date, and
  the result has no visit for its establishment.
\<close>

theorem null_date_rows_counterexample:
  "map_sum id rows (build_establishment_history
     \<lparr>columns = required_cols, rows =
        [null_row\<lparr>camis := Some ''E1'', inspection_date := None, score := Some 12,
           violation_code := Some ''04L'', violation_description := Some ''mice'',
           is_critical_description := Some True\<rparr>]\<rparr>)
   = Inr []"
  by code_simp

text \<open>
  C7. The visits of an establishment stand in the result in strictly ascending order of
  their dates, one for each date the establishment has in the table, and their inspection
  numbers are 1, 2, 3, ... in that order: the number counts the visits, however many rows
  were collapsed into each.
\<close>

theorem inspection_number_sequence:
  fixes c :: string
  assumes "build_establishment_history df = Inr out"
  shows "\<exists>ds. sorted_wrt (<) ds
           \<and> set ds = {d. \<exists>r\<in>set (rows df). camis r = Some c \<and> inspection_date r = Some d}
           \<and> map inspection_date (visits_of c out) = map Some ds
           \<and> map inspection_number (visits_of c out)
               = map (\<lambda>i. Some (int i)) [1..<Suc (length ds)]"
proof -
  let ?ds = "dates_of c (rows df)"
  note v = visits_of_establishment [OF assms, where c = c, folded visits_of_def]
  have "map inspection_date (visits_of c out) = map Some ?ds"
    by (rule nth_equalityI) (simp_all add: v)
  moreover have "map inspection_number (visits_of c out)
                   = map (\<lambda>i. Some (int i)) [1..<Suc (length ?ds)]"
    by (rule nth_equalityI) (simp_all add: v nth_upt del: upt_Suc)
  ultimately show ?thesis
    using strict_sorted_dates_of [of c "rows df"] set_dates_of [of c "rows df"] by blast
qed

theorem inspection_number_sequence_witness:
  "build_establishment_history example_table = Inr example_history
   \<and> (\<exists>ds. sorted_wrt (<) ds
           \<and> set ds = {d. \<exists>r\<in>set (rows example_table).
                            camis r = Some ''E1'' \<and> inspection_date r = Some d}
           \<and> map inspection_date (visits_of ''E1'' example_history) = map Some ds
           \<and> map inspection_number (visits_of ''E1'' example_history)
               = map (\<lambda>i. Some (int i)) [1..<Suc (length ds)])"
  using example_history_built inspection_number_sequence [OF example_history_built, of "''E1''"]
  by (rule conjI)

text \<open>
  C8. For the visits of an establishment in the order of the result: the first has no
  previous date and no day difference; every later one has the date of the visit before it
  as previous date, and its day difference is the number of whole days from that date to
  its own. A day difference is missing whenever one of the two dates is missing.
\<close>

theorem days_since_prev_history:
  fixes c :: string
  assumes "build_establishment_history df = Inr out"
    and "k < length (visits_of c out)"
  shows "(k = 0 \<longrightarrow> prev_inspection_date (visits_of c out ! k) = None
                    \<and> days_since_prev (visits_of c out ! k) = None)
       \<and> (0 < k \<longrightarrow> (\<exists>a b. inspection_date (visits_of c out ! k) = Some a
                          \<and> inspection_date (visits_of c out ! (k - 1)) = Some b
                          \<and> prev_inspection_date (visits_of c out ! k) = Some b
                          \<and> days_since_prev (visits_of c out ! k)
                              = Some ((a - b) div ns_per_day)))
       \<and> (inspection_date (visits_of c out ! k) = None
            \<or> prev_inspection_date (visits_of c out ! k) = None
          \<longrightarrow> days_since_prev (visits_of c out ! k) = None)"
proof -
  note v = visits_of_establishment [OF assms(1), where c = c, folded visits_of_def]
  from assms(2) have k: "k < length (dates_of c (rows df))"
    by (simp add: v(1))
  show ?thesis
  proof (cases k)
    case 0
    with k show ?thesis by (simp add: v)
  next
    case (Suc j)
    with k have "j < length (dates_of c (rows df))" by simp
    with k Suc show ?thesis by (simp add: v)
  qed
qed

theorem days_since_prev_history_witness:
  "build_establishment_history example_table = Inr example_history
   \<and> 1 < length (visits_of ''E1'' example_history)
   \<and> prev_inspection_date (visits_of ''E1'' example_history ! 0) = None
   \<and> days_since_prev (visits_of ''E1'' example_history ! 0) = None
   \<and> (\<exists>a b. inspection_date (visits_of ''E1'' example_history ! 1) = Some a
          \<and> inspection_date (visits_of ''E1'' example_history ! 0) = Some b
          \<and> prev_inspection_date (visits_of ''E1'' example_history ! 1) = Some b
          \<and> days_since_prev (visits_of ''E1'' example_history ! 1)
              = Some ((a - b) div ns_per_day))
   \<and> days_since_prev (visits_of ''E1'' example_history ! 1) = Some 64"
proof -
  have k: "1 < length (visits_of ''E1'' example_history)"
    by (simp add: visits_of_def example_history_def)
  have k0: "0 < length (visits_of ''E1'' example_history)"
    by (simp add: visits_of_def example_history_def)
  have d: "days_since_prev (visits_of ''E1'' example_history ! 1) = Some 64"
    by (simp add: visits_of_def example_history_def)
  from days_since_prev_history [OF example_history_built k0]
  have first: "prev_inspection_date (visits_of ''E1'' example_history ! 0) = None
      \<and> days_since_prev (visits_of ''E1'' example_history ! 0) = None"
    by simp
  from days_since_prev_history [OF example_history_built k]
  have later: "\<exists>a b. inspection_date (visits_of ''E1'' example_history ! 1) = Some a
          \<and> inspection_date (visits_of ''E1'' example_history ! 0) = Some b
          \<and> prev_inspection_date (visits_of ''E1'' example_history ! 1) = Some b
          \<and> days_since_prev (visits_of ''E1'' example_history ! 1)
              = Some ((a - b) div ns_per_day)"
    by simp
  from example_history_built k first later d show ?thesis
    by simp
qed

text \<open>
  C9. The function is a function of its argument, so two runs on one table agree. Two
  tables that hold the same rows in any two orders, under the same columns, give the same
  sequence of establishments, dates, inspection numbers and day differences, or fail alike.
\<close>

theorem history_independent_of_row_order:
  assumes "mset (rows df1) = mset (rows df2)" and "set (columns df1) = set (columns df2)"
  shows "history_seq (build_establishment_history df1)
           = history_seq (build_establishment_history df2)"
proof (cases "history_columns_present df1")
  case True
  have p2: "history_columns_present df2"
    using history_columns_present_cong [OF assms(2)] True by blast
  from assms(1) have "set (rows df1) = set (rows df2)"
    by (rule mset_eq_setD)
  then have k: "group_keys (rows df1) = group_keys (rows df2)"
    by (rule group_keys_cong)
  show ?thesis
    unfolding history_seq_eq [OF True] history_seq_eq [OF p2] k ..
next
  case False
  have f2: "\<not> history_columns_present df2"
    using history_columns_present_cong [OF assms(2)] False by blast
  have e: "build_establishment_history df = Inl KeyError"
    if "\<not> history_columns_present df" for df
  proof (cases "build_establishment_history df")
    case (Inl e)
    then show ?thesis
      by (simp only: build_establishment_history_error [OF Inl])
  next
    case (Inr out)
    from build_establishment_history_returns [OF Inr] that show ?thesis by contradiction
  qed
  show ?thesis
    unfolding e [OF False] e [OF f2] ..
qed

theorem history_independent_of_row_order_witness:
  "mset (rows example_table) = mset (rows (example_table\<lparr>rows := rev (rows example_table)\<rparr>))
   \<and> set (columns example_table)
       = set (columns (example_table\<lparr>rows := rev (rows example_table)\<rparr>))
   \<and> history_seq (build_establishment_history example_table)
       = history_seq (build_establishment_history
           (example_table\<lparr>rows := rev (rows example_table)\<rparr>))
   \<and> history_seq (build_establishment_history
           (example_table\<lparr>rows := rev (rows example_table)\<rparr>))
       = Inr [(Some ''E1'', Some (day 19367), Some 1, None),
              (Some ''E1'', Some (day 19431), Some 2, Some 64),
              (Some ''E2'', Some (day 19400), Some 1, None)]"
proof -
  have m: "mset (rows example_table)
             = mset (rows (example_table\<lparr>rows := rev (rows example_table)\<rparr>))"
    by simp
  have c: "set (columns example_table)
             = set (columns (example_table\<lparr>rows := rev (rows example_table)\<rparr>))"
    by simp
  have v: "history_seq (build_establishment_history
             (example_table\<lparr>rows := rev (rows example_table)\<rparr>))
       = Inr [(Some ''E1'', Some (day 19367), Some 1, None),
              (Some ''E1'', Some (day 19431), Some 2, Some 64),
              (Some ''E2'', Some (day 19400), Some 1, None)]"
    by code_simp
  show ?thesis
    by (rule conjI [OF m conjI [OF c conjI [OF history_independent_of_row_order [OF m c] v]]])
qed

section \<open>Facts about the Hygiene Index Calculator\<close>

subsection \<open>Minimum and maximum of a column\<close>

lemma set_map_filter_id: "set (List.map_filter id c) = {a. Some a \<in> set c}"
  by (induction c) (auto simp: List.map_filter_simps split: option.splits)

lemma nan_min_le:
  assumes "Some a \<in> set c"
  shows "\<exists>lo. nan_min c = Some lo \<and> lo \<le> a"
proof -
  from assms have a: "a \<in> set (List.map_filter id c)"
    by (simp add: set_map_filter_id)
  then obtain v vs where vs: "List.map_filter id c = v # vs"
    by (cases "List.map_filter id c") auto
  have "fold min vs v = Min (set (v # vs))"
    by (simp only: Min.set_eq_fold)
  with a vs show ?thesis
    by (simp add: nan_min_def del: set_simps) 
qed

lemma nan_max_ge:
  assumes "Some a \<in> set c"
  shows "\<exists>hi. nan_max c = Some hi \<and> a \<le> hi"
proof -
  from assms have a: "a \<in> set (List.map_filter id c)"
    by (simp add: set_map_filter_id)
  then obtain v vs where vs: "List.map_filter id c = v # vs"
    by (cases "List.map_filter id c") auto
  have "fold max vs v = Max (set (v # vs))"
    by (simp only: Max.set_eq_fold)
  with a vs show ?thesis
    by (simp add: nan_max_def del: set_simps)
qed

lemma nan_min_all_None:
  assumes "\<forall>x\<in>set c. x = None"
  shows "nan_min c = None"
proof -
  from assms have "set (List.map_filter id c) = {}"
    by (auto simp: set_map_filter_id)
  then show ?thesis
    by (simp add: nan_min_def)
qed

lemma eps_pos: "0 < eps"
  by (simp add: eps_def)


lemma nan_min_in:
  assumes "nan_min c = Some lo"
  shows "Some lo \<in> set c"
proof -
  from assms obtain v vs where vs: "List.map_filter id c = v # vs" and lo: "lo = fold min vs v"
    by (auto simp: nan_min_def split: list.splits)
  have "fold min vs v = Min (set (v # vs))"
    by (simp only: Min.set_eq_fold)
  moreover have "Min (set (v # vs)) \<in> set (v # vs)"
    by (rule Min_in) simp_all
  ultimately have "lo \<in> set (List.map_filter id c)"
    using vs lo by simp
  then show ?thesis
    by (simp add: set_map_filter_id)
qed

lemma nan_max_in:
  assumes "nan_max c = Some hi"
  shows "Some hi \<in> set c"
proof -
  from assms obtain v vs where vs: "List.map_filter id c = v # vs" and hi: "hi = fold max vs v"
    by (auto simp: nan_max_def split: list.splits)
  have "fold max vs v = Max (set (v # vs))"
    by (simp only: Max.set_eq_fold)
  moreover have "Max (set (v # vs)) \<in> set (v # vs)"
    by (rule Max_in) simp_all
  ultimately have "hi \<in> set (List.map_filter id c)"
    using vs hi by simp
  then show ?thesis
    by (simp add: set_map_filter_id)
qed

subsection \<open>Scaling\<close>

lemma lift2_simps [simp]:
  "lift2 f None b = None"
  "lift2 f a None = None"
  "lift2 f (Some x) (Some y) = Some (f x y)"
  by (simp_all add: lift2_def split: option.splits)

lemma length_min_max_scale [simp]: "length (min_max_scale c) = length c"
  by (simp add: min_max_scale_def Let_def)

lemma length_scale_100 [simp]: "length (scale_100 c) = length c"
  by (simp add: scale_100_def Let_def)

lemma length_fillna [simp]: "length (fillna v xs) = length xs"
  by (simp add: fillna_def)

lemma min_max_scale_nth:
  assumes "i < length c" and "c ! i = Some a"
  shows "\<exists>lo hi. nan_min c = Some lo \<and> nan_max c = Some hi \<and> lo \<le> a \<and> a \<le> hi
           \<and> min_max_scale c ! i = Some ((a - lo) / (hi - lo + eps))"
proof -
  from assms have "Some a \<in> set c"
    by (metis nth_mem)
  with nan_min_le [of a c] nan_max_ge [of a c]
  obtain lo hi where "nan_min c = Some lo" "lo \<le> a" "nan_max c = Some hi" "a \<le> hi"
    by blast
  with assms show ?thesis
    by (simp add: min_max_scale_def Let_def)
qed

lemma min_max_scale_None:
  assumes "\<forall>x\<in>set c. x = None"
  shows "\<forall>y\<in>set (min_max_scale c). y = None"
  using assms by (auto simp: min_max_scale_def Let_def)

lemma min_max_scale_constant:
  assumes "\<forall>x\<in>set c. x = Some a"
  shows "\<forall>y\<in>set (min_max_scale c). y = Some 0"
proof
  fix y assume "y \<in> set (min_max_scale c)"
  then obtain i where i: "i < length c" and y: "y = min_max_scale c ! i"
    by (auto simp: in_set_conv_nth)
  with assms have "c ! i = Some a" by simp
  from min_max_scale_nth [OF i this]
  obtain lo hi where lo: "nan_min c = Some lo" and "nan_max c = Some hi"
      and v: "min_max_scale c ! i = Some ((a - lo) / (hi - lo + eps))"
    by blast
  from nan_min_in [OF lo] assms have "lo = a" by auto
  with v y show "y = Some 0" by simp
qed

lemma scale_100_nth:
  assumes "i < length c" and "c ! i = Some a"
  shows "\<exists>x. scale_100 c ! i = Some x \<and> 0 \<le> x \<and> x \<le> 100"
proof -
  from assms have "Some a \<in> set c"
    by (metis nth_mem)
  with nan_min_le [of a c] nan_max_ge [of a c]
  obtain lo hi where m: "nan_min c = Some lo" "nan_max c = Some hi" and b: "lo \<le> a" "a \<le> hi"
    by blast
  let ?d = "hi - lo + eps"
  from b eps_pos have d: "0 < ?d" by linarith
  from b eps_pos have "a - lo \<le> ?d" by linarith
  then have "100 * (a - lo) \<le> 100 * ?d" by simp
  with d have "100 * (a - lo) / ?d \<le> 100"
    by (simp add: pos_divide_le_eq)
  moreover from b d have "0 \<le> 100 * (a - lo) / ?d"
    by simp
  moreover from assms m have "scale_100 c ! i = Some (100 * (a - lo) / ?d)"
    by (simp add: scale_100_def Let_def)
  ultimately show ?thesis by blast
qed

lemma scale_100_None:
  assumes "\<forall>x\<in>set c. x = None"
  shows "\<forall>y\<in>set (scale_100 c). y = None"
  using assms by (auto simp: scale_100_def Let_def)

lemma scale_100_constant:
  assumes "\<forall>x\<in>set c. x = Some a"
  shows "\<forall>y\<in>set (scale_100 c). y = Some 0"
proof
  fix y assume "y \<in> set (scale_100 c)"
  then obtain i where i: "i < length c" and y: "y = scale_100 c ! i"
    by (auto simp: in_set_conv_nth)
  with assms have ci: "c ! i = Some a" by simp
  then have "Some a \<in> set c" using i by (metis nth_mem)
  with nan_min_le [of a c] nan_max_ge [of a c]
  obtain lo hi where m: "nan_min c = Some lo" "nan_max c = Some hi" by blast
  from nan_min_in [OF m(1)] assms have "lo = a" by auto
  with i ci m y show "y = Some 0"
    by (simp add: scale_100_def Let_def)
qed


subsection \<open>The columns of the result\<close>

lemma map_map2_new:
  assumes "length vs = length rs" and "\<And>r v. f (g r v) = v"
  shows "map (f \<circ> (\<lambda>(r, v). g r v)) (zip rs vs) = vs"
  using assms(1) by (induction vs rs rule: list_induct2) (simp_all add: assms(2))

lemma map_map2_old:
  assumes "length vs = length rs" and "\<And>r v. f (g r v) = f r"
  shows "map (f \<circ> (\<lambda>(r, v). g r v)) (zip rs vs) = map f rs"
  using assms(1) by (induction vs rs rule: list_induct2) (simp_all add: assms(2))

lemma length_weighted_sum:
  assumes "length s = n" "length cv = n" "length vc = n"
  shows "length (weighted_sum ws wc wv s cv vc) = n"
  using assms by (simp add: weighted_sum_def)

lemma weighted_sum_nth:
  assumes "i < length s" "length cv = length s" "length vc = length s"
  shows "weighted_sum ws wc wv s cv vc ! i
           = lift2 (+) (lift2 (+) (lift2 (*) (Some ws) (s ! i)) (lift2 (*) (Some wc) (cv ! i)))
               (lift2 (*) (Some wv) (vc ! i))"
  using assms by (simp add: weighted_sum_def)

text \<open>The values of the three columns the function adds, from the rows of its argument.\<close>

lemma rows_set_score_filled:
  "map score_filled (rows (set_score_filled t))
     = fillna (median (map score (rows t))) (map score (rows t))"
  "map critical_violations (rows (set_score_filled t)) = map critical_violations (rows t)"
  "map violation_count (rows (set_score_filled t)) = map violation_count (rows t)"
  "length (rows (set_score_filled t)) = length (rows t)"
  by (simp_all add: set_score_filled_def map_map2_new map_map2_old)

lemma compute_hygiene_index_columns:
  assumes "compute_hygiene_index ws wc wv df = Inr out"
  shows "length (rows out) = length (rows df)"
    and "map score_filled (rows out) = filled_scores (rows df)"
    and "map hygiene_index_raw (rows out) = raw_indices ws wc wv (rows df)"
    and "map hygiene_index (rows out) = scale_100 (raw_indices ws wc wv (rows df))"
proof -
  let ?t1 = "set_score_filled df"
  let ?t2 = "set_hygiene_index_raw ws wc wv ?t1"
  from assms have out: "out = set_hygiene_index ?t2"
    by (simp add: compute_hygiene_index_def Let_def split: if_splits)
  have raw: "weighted_sum ws wc wv (s_scaled (rows ?t1)) (cv_scaled (rows ?t1))
               (vc_scaled (rows ?t1)) = raw_indices ws wc wv (rows df)"
    by (simp add: raw_indices_def s_scaled_def cv_scaled_def vc_scaled_def filled_scores_def
        rows_set_score_filled map_map [symmetric] del: map_map)
  have len: "length (raw_indices ws wc wv (rows df)) = length (rows ?t1)"
    unfolding raw_indices_def
    by (rule length_weighted_sum) (simp_all add: filled_scores_def rows_set_score_filled)
  have r2: "rows ?t2 = map2 (\<lambda>r v. r\<lparr>hygiene_index_raw := v\<rparr>) (rows ?t1)
              (raw_indices ws wc wv (rows df))"
    by (simp add: set_hygiene_index_raw_def raw)
  have raw2: "map hygiene_index_raw (rows ?t2) = raw_indices ws wc wv (rows df)"
    unfolding r2 by (simp add: map_map2_new [OF len])
  have sf2: "map score_filled (rows ?t2) = filled_scores (rows df)"
    unfolding r2 by (simp add: map_map2_old [OF len] rows_set_score_filled filled_scores_def)
  have len2: "length (rows ?t2) = length (rows df)"
    unfolding r2 using len by (simp add: rows_set_score_filled)
  have r3: "rows out = map2 (\<lambda>r v. r\<lparr>hygiene_index := v\<rparr>) (rows ?t2)
              (scale_100 (raw_indices ws wc wv (rows df)))"
    by (simp add: out set_hygiene_index_def raw2)
  have len3: "length (scale_100 (raw_indices ws wc wv (rows df))) = length (rows ?t2)"
    using len len2 by (simp add: rows_set_score_filled)
  show "length (rows out) = length (rows df)"
    unfolding r3 using len3 len2 by simp
  show "map score_filled (rows out) = filled_scores (rows df)"
    unfolding r3 by (simp add: map_map2_old [OF len3] sf2)
  show "map hygiene_index_raw (rows out) = raw_indices ws wc wv (rows df)"
    unfolding r3 by (simp add: map_map2_old [OF len3] raw2)
  show "map hygiene_index (rows out) = scale_100 (raw_indices ws wc wv (rows df))"
    unfolding r3 by (simp add: map_map2_new [OF len3])
qed


subsection \<open>Where the index is a number, and where it is not\<close>

lemma median_None:
  assumes "\<forall>x\<in>set c. x = None"
  shows "median c = None"
proof -
  from assms have "set (List.map_filter id c) = {}"
    by (auto simp: set_map_filter_id)
  then show ?thesis
    by (simp add: median_def)
qed

lemma median_Some:
  assumes "Some a \<in> set c"
  shows "\<exists>m. median c = Some m"
proof -
  from assms have "a \<in> set (List.map_filter id c)"
    by (simp add: set_map_filter_id)
  then have "length (sort (List.map_filter id c)) \<noteq> 0"
    by auto
  then have "median c = (if odd (length (sort (List.map_filter id c)))
      then Some (sort (List.map_filter id c) ! (length (sort (List.map_filter id c)) div 2))
      else Some ((sort (List.map_filter id c) ! (length (sort (List.map_filter id c)) div 2 - 1)
             + sort (List.map_filter id c) ! (length (sort (List.map_filter id c)) div 2)) / 2))"
    unfolding median_def Let_def by (simp only: if_False)
  then show ?thesis
    by metis
qed

lemma filled_scores_None:
  assumes "\<forall>r\<in>set rs. score r = None"
  shows "\<forall>x\<in>set (filled_scores rs). x = None"
proof -
  from assms have "median (map score rs) = None"
    by (intro median_None) simp
  with assms show ?thesis
    by (simp add: filled_scores_def fillna_def)
qed

lemma filled_scores_Some:
  assumes "r \<in> set rs" and "score r = Some a" and "i < length rs"
  shows "\<exists>b. filled_scores rs ! i = Some b"
proof -
  from assms(1,2) have "Some a \<in> set (map score rs)"
    by (metis image_eqI set_map)
  from median_Some [OF this] obtain m where "median (map score rs) = Some m" ..
  with assms(3) show ?thesis
    by (simp add: filled_scores_def fillna_def split: option.splits)
qed

lemma min_max_scale_Some:
  assumes "i < length c" and "c ! i = Some a"
  shows "\<exists>b. min_max_scale c ! i = Some b"
  using min_max_scale_nth [OF assms] by blast

lemma fillna_Some_nth:
  assumes "i < length xs"
  shows "\<exists>b. fillna (Some a) xs ! i = Some b"
  using assms by (simp add: fillna_def split: option.splits)

lemma raw_indices_length [simp]: "length (raw_indices ws wc wv rs) = length rs"
  unfolding raw_indices_def
  by (rule length_weighted_sum) (simp_all add: filled_scores_def)

lemma raw_indices_nth:
  assumes "i < length rs"
  shows "raw_indices ws wc wv rs ! i
     = lift2 (+) (lift2 (+)
          (lift2 (*) (Some ws) (min_max_scale (filled_scores rs) ! i))
          (lift2 (*) (Some wc) (min_max_scale
             (fillna (Some 0) (map (map_option of_int \<circ> critical_violations) rs)) ! i)))
          (lift2 (*) (Some wv) (min_max_scale
             (fillna (Some 0) (map (map_option of_int \<circ> violation_count) rs)) ! i))"
  unfolding raw_indices_def using assms
  by (subst weighted_sum_nth) (simp_all add: filled_scores_def)

text \<open>When no visit of the cohort has a score, every raw index and every index is missing.\<close>

lemma all_scores_missing:
  assumes "compute_hygiene_index ws wc wv df = Inr out"
    and "\<forall>r\<in>set (rows df). score r = None"
    and "v \<in> set (rows out)"
  shows "hygiene_index_raw v = None" and "hygiene_index v = None"
proof -
  note cols = compute_hygiene_index_columns [OF assms(1)]
  from assms(3) obtain i where i: "i < length (rows df)" and v: "v = rows out ! i"
    by (auto simp: in_set_conv_nth cols(1))
  have "\<forall>y\<in>set (min_max_scale (filled_scores (rows df))). y = None"
    using assms(2) by (intro min_max_scale_None filled_scores_None)
  then have s: "min_max_scale (filled_scores (rows df)) ! j = None" if "j < length (rows df)" for j
    using that by (simp add: filled_scores_def)
  have raw: "\<forall>y\<in>set (raw_indices ws wc wv (rows df)). y = None"
    by (auto simp: in_set_conv_nth raw_indices_nth s)
  then have idx: "\<forall>y\<in>set (scale_100 (raw_indices ws wc wv (rows df))). y = None"
    by (rule scale_100_None)
  have "hygiene_index_raw v = map hygiene_index_raw (rows out) ! i"
    using i v by (simp add: cols(1))
  with raw i show "hygiene_index_raw v = None"
    by (simp add: cols(3))
  have "hygiene_index v = map hygiene_index (rows out) ! i"
    using i v by (simp add: cols(1))
  with idx i show "hygiene_index v = None"
    by (simp add: cols(4))
qed

text \<open>When some visit of the cohort has a score, every index is a number from 0 to 100.\<close>

lemma hygiene_index_in_range:
  assumes "compute_hygiene_index ws wc wv df = Inr out"
    and "r \<in> set (rows df)" and "score r = Some a"
    and "v \<in> set (rows out)"
  shows "\<exists>x. hygiene_index v = Some x \<and> 0 \<le> x \<and> x \<le> 100"
proof -
  note cols = compute_hygiene_index_columns [OF assms(1)]
  from assms(4) obtain i where i: "i < length (rows df)" and v: "v = rows out ! i"
    by (auto simp: in_set_conv_nth cols(1))
  from filled_scores_Some [OF assms(2,3) i] obtain b where "filled_scores (rows df) ! i = Some b" ..
  with i min_max_scale_Some [of i "filled_scores (rows df)" b]
  obtain s where s: "min_max_scale (filled_scores (rows df)) ! i = Some s"
    by (auto simp: filled_scores_def)
  let ?cv = "fillna (Some (0::rat)) (map (map_option of_int \<circ> critical_violations) (rows df))"
  let ?vc = "fillna (Some (0::rat)) (map (map_option of_int \<circ> violation_count) (rows df))"
  have "\<exists>b. ?cv ! i = Some b" and "\<exists>b. ?vc ! i = Some b"
    using i by (simp_all add: fillna_Some_nth)
  then obtain c0 n0 where "?cv ! i = Some c0" "?vc ! i = Some n0"
    by blast
  with i min_max_scale_Some [of i ?cv c0] min_max_scale_Some [of i ?vc n0]
  obtain c n where c: "min_max_scale ?cv ! i = Some c" and n: "min_max_scale ?vc ! i = Some n"
    by auto
  from i s c n have "raw_indices ws wc wv (rows df) ! i = Some (ws * s + wc * c + wv * n)"
    by (simp add: raw_indices_nth)
  with i scale_100_nth [of i "raw_indices ws wc wv (rows df)"]
  obtain x where "scale_100 (raw_indices ws wc wv (rows df)) ! i = Some x" "0 \<le> x" "x \<le> 100"
    by auto
  moreover have "hygiene_index v = map hygiene_index (rows out) ! i"
    using i v by (simp add: cols(1))
  ultimately show ?thesis
    using i by (simp add: cols(4))
qed

text \<open>When all visits of the cohort have one score and the same two counts, every index
  is 0.\<close>

lemma hygiene_index_constant_cohort:
  assumes "compute_hygiene_index ws wc wv df = Inr out"
    and "\<forall>r\<in>set (rows df). score r = Some a \<and> critical_violations r = c
           \<and> violation_count r = n"
    and "v \<in> set (rows out)"
  shows "hygiene_index v = Some 0"
proof -
  note cols = compute_hygiene_index_columns [OF assms(1)]
  from assms(3) obtain i where i: "i < length (rows df)" and v: "v = rows out ! i"
    by (auto simp: in_set_conv_nth cols(1))
  let ?cv = "fillna (Some (0::rat)) (map (map_option of_int \<circ> critical_violations) (rows df))"
  let ?vc = "fillna (Some (0::rat)) (map (map_option of_int \<circ> violation_count) (rows df))"
  from assms(2) have "\<forall>x\<in>set (filled_scores (rows df)). x = Some a"
    by (auto simp: filled_scores_def fillna_def)
  then have "\<forall>y\<in>set (min_max_scale (filled_scores (rows df))). y = Some 0"
    by (rule min_max_scale_constant)
  then have s: "min_max_scale (filled_scores (rows df)) ! j = Some 0"
    if "j < length (rows df)" for j
    using that by (simp add: filled_scores_def)
  from assms(2) have "\<forall>x\<in>set ?cv. x = Some (case c of None \<Rightarrow> 0 | Some k \<Rightarrow> of_int k)"
    by (auto simp: fillna_def split: option.splits)
  then have "\<forall>y\<in>set (min_max_scale ?cv). y = Some 0"
    by (rule min_max_scale_constant)
  then have cv: "min_max_scale ?cv ! j = Some 0" if "j < length (rows df)" for j
    using that by simp
  from assms(2) have "\<forall>x\<in>set ?vc. x = Some (case n of None \<Rightarrow> 0 | Some k \<Rightarrow> of_int k)"
    by (auto simp: fillna_def split: option.splits)
  then have "\<forall>y\<in>set (min_max_scale ?vc). y = Some 0"
    by (rule min_max_scale_constant)
  then have vc: "min_max_scale ?vc ! j = Some 0" if "j < length (rows df)" for j
    using that by simp
  have "\<forall>y\<in>set (raw_indices ws wc wv (rows df)). y = Some 0"
    by (auto simp: in_set_conv_nth raw_indices_nth s cv vc)
  then have "\<forall>y\<in>set (scale_100 (raw_indices ws wc wv (rows df))). y = Some 0"
    by (rule scale_100_constant)
  moreover have "hygiene_index v = map hygiene_index (rows out) ! i"
    using i v by (simp add: cols(1))
  ultimately show ?thesis
    using i by (simp add: cols(4))
qed

section \<open>Properties of the Hygiene Index Calculator\<close>

text \<open>
  C3. The index is to lie between 0 and 100, and to be 0 on a cohort of one visit. It does
  on every cohort in which some visit has a score (\<open>hygiene_index_in_range\<close>,
  \<open>hygiene_index_constant_cohort\<close>). On a cohort of one visit that has no score the median
  that is to fill the score is missing too, and the index of the visit is the missing
  value, not 0.
\<close>

theorem single_visit_without_score:
  "map_sum id (map hygiene_index \<circ> rows) (compute_hygiene_index_default
     \<lparr>columns = agg_columns, rows =
        [null_row\<lparr>camis := Some ''E1'', inspection_date := Some (day 19367), score := None,
           violation_count := Some 2, critical_violations := Some 1\<rparr>]\<rparr>)
   = Inr [None]"
  by code_simp

text \<open>
  C4. When no visit of the cohort has a score, the score is to add 0 to every raw index.
  In this cohort of two visits it would leave the raw indices 0.5 + 0.1 and 0, from the
  two counts; the function returns the missing value for both
  (in general: \<open>all_scores_missing\<close>).
\<close>

theorem cohort_without_scores:
  "map_sum id (map hygiene_index_raw \<circ> rows) (compute_hygiene_index_default
     \<lparr>columns = agg_columns, rows =
        [null_row\<lparr>camis := Some ''E1'', inspection_date := Some (day 19367), score := None,
           violation_count := Some 3, critical_violations := Some 2\<rparr>,
         null_row\<lparr>camis := Some ''E2'', inspection_date := Some (day 19400), score := None,
           violation_count := Some 1, critical_violations := Some 0\<rparr>]\<rparr>)
   = Inr [None, None]"
  by code_simp

section \<open>Facts about the Aggregator\<close>

lemma set_map_filter_zp_key:
  "set (List.map_filter (zp_key per) rs)
     = {(z, per d) | z d. \<exists>r\<in>set rs. zipcode r = Some z \<and> inspection_date r = Some d}"
proof (induction rs)
  case Nil
  then show ?case by (simp add: List.map_filter_simps)
next
  case (Cons r rs)
  show ?case
  proof (cases "zp_key per r")
    case None
    then have "zipcode r = None \<or> inspection_date r = None"
      by (simp add: zp_key_def split: option.splits)
    with None Cons.IH show ?thesis
      by (auto simp: List.map_filter_simps)
  next
    case (Some k)
    then obtain z d where "zipcode r = Some z" "inspection_date r = Some d" "k = (z, per d)"
      by (auto simp: zp_key_def split: option.splits)
    with Some Cons.IH show ?thesis
      by (auto simp: List.map_filter_simps)
  qed
qed

lemma zp_key_kept:
  "List.map_filter (zp_key per) (dropna_date_zip rs) = List.map_filter (zp_key per) rs"
  by (induction rs)
     (auto simp: dropna_date_zip_def List.map_filter_simps zp_key_def split: option.splits)

lemma filter_zp_key_kept:
  "filter (\<lambda>r. zp_key per r = Some k) (dropna_date_zip rs)
     = filter (\<lambda>r. zp_key per r = Some k) rs"
  by (induction rs) (auto simp: dropna_date_zip_def zp_key_def split: option.splits)

lemma zp_row_key [simp]:
  "agg_zipcode (zp_row per rs k) = fst k" "period (zp_row per rs k) = snd k"
  by (simp_all add: zp_row_def Let_def)

lemma aggregate_by_zip_Inr:
  assumes "aggregate_by_zip per df = Inr out"
  shows "out = map (zp_row per (dropna_date_zip (rows df))) (zp_keys per (rows df))"
  using assms by (auto simp: aggregate_by_zip_def Let_def zp_keys_def zp_key_kept split: if_splits)

text \<open>
  The keys of the result are the pairs of a zipcode and a period taken from the rows that
  have a zipcode and a date, each once: a row without zipcode or without date gives no key,
  and the function makes up no key of its own.
\<close>

lemma aggregate_by_zip_keys:
  assumes "aggregate_by_zip per df = Inr out"
  shows "distinct (map (\<lambda>a. (agg_zipcode a, period a)) out)"
    and "set (map (\<lambda>a. (agg_zipcode a, period a)) out)
           = {(z, per d) | z d.
                \<exists>r\<in>set (rows df). zipcode r = Some z \<and> inspection_date r = Some d}"
proof -
  have m: "map (\<lambda>a. (agg_zipcode a, period a)) out = zp_keys per (rows df)"
    unfolding aggregate_by_zip_Inr [OF assms] by (simp add: comp_def)
  show "distinct (map (\<lambda>a. (agg_zipcode a, period a)) out)"
    unfolding m by (simp add: zp_keys_def)
  show "set (map (\<lambda>a. (agg_zipcode a, period a)) out)
           = {(z, per d) | z d.
                \<exists>r\<in>set (rows df). zipcode r = Some z \<and> inspection_date r = Some d}"
    unfolding m by (simp add: zp_keys_def set_map_filter_zp_key)
qed

text \<open>The count of a key is taken over the rows that have this zipcode and a date in this
  period.\<close>

lemma aggregate_by_zip_inspections:
  assumes "aggregate_by_zip per df = Inr out" and "a \<in> set out"
  shows "inspections a = int (length (filter
           (\<lambda>r. zp_key per r = Some (agg_zipcode a, period a) \<and> inspection_number r \<noteq> None)
           (rows df)))"
proof -
  from assms(2) have "a \<in> set (map (zp_row per (dropna_date_zip (rows df)))
                              (zp_keys per (rows df)))"
    by (simp only: aggregate_by_zip_Inr [OF assms(1), symmetric])
  then obtain k where a: "a = zp_row per (dropna_date_zip (rows df)) k"
    by (auto simp only: set_map)
  show ?thesis
    by (simp add: a zp_row_def Let_def count_valid_def filter_zp_key_kept filter_map comp_def
        conj_commute)
qed


text \<open>Leaving out the rows without zipcode or date beforehand changes nothing.\<close>

lemma dropna_date_zip_idem [simp]: "dropna_date_zip (dropna_date_zip rs) = dropna_date_zip rs"
  by (simp add: dropna_date_zip_def)

lemma aggregate_by_zip_dropna:
  "aggregate_by_zip per (df\<lparr>rows := dropna_date_zip (rows df)\<rparr>) = aggregate_by_zip per df"
  by (simp add: aggregate_by_zip_def)

lemma aggregate_by_zip_total:
  assumes "set [''inspection_date'', ''zipcode'', ''hygiene_index'', ''inspection_number'',
                ''camis'', ''score'', ''critical_violations'', ''action''] \<subseteq> set (columns df)"
  shows "\<exists>out. aggregate_by_zip per df = Inr out"
  using assms by (simp add: aggregate_by_zip_def Let_def)

lemma example_aggregates_built:
  "aggregate_by_zip month_start example_visits = Inr example_aggregates"
  by code_simp

section \<open>Properties of the Aggregator\<close>

text \<open>
  C5. A visit whose zipcode or whose date, and with it the period, is missing is left out of
  the aggregates altogether. The keys of the result are the pairs of a zipcode and a period
  of the visits that have both, each once, so no key stands in for a missing zipcode or
  period; the count of a key is taken over the visits that have this zipcode and a date in
  this period; and the result is the same as that of the table without the visits that lack
  a zipcode or a date.
\<close>

theorem null_zipcode_or_period_excluded:
  assumes "aggregate_by_zip to_period_start df = Inr out"
  shows "distinct (map (\<lambda>a. (agg_zipcode a, period a)) out)
       \<and> set (map (\<lambda>a. (agg_zipcode a, period a)) out)
           = {(z, to_period_start d) | z d.
                \<exists>r\<in>set (rows df). zipcode r = Some z \<and> inspection_date r = Some d}
       \<and> (\<forall>a\<in>set out. inspections a = int (length (filter
              (\<lambda>r. zipcode r = Some (agg_zipcode a)
                 \<and> (\<exists>d. inspection_date r = Some d \<and> to_period_start d = period a)
                 \<and> inspection_number r \<noteq> None)
              (rows df))))
       \<and> aggregate_by_zip to_period_start (df\<lparr>rows := dropna_date_zip (rows df)\<rparr>) = Inr out"
proof (intro conjI ballI)
  show "distinct (map (\<lambda>a. (agg_zipcode a, period a)) out)"
    by (rule aggregate_by_zip_keys(1) [OF assms])
  show "set (map (\<lambda>a. (agg_zipcode a, period a)) out)
           = {(z, to_period_start d) | z d.
                \<exists>r\<in>set (rows df). zipcode r = Some z \<and> inspection_date r = Some d}"
    by (rule aggregate_by_zip_keys(2) [OF assms])
  show "aggregate_by_zip to_period_start (df\<lparr>rows := dropna_date_zip (rows df)\<rparr>) = Inr out"
    by (simp only: aggregate_by_zip_dropna assms)
next
  fix a assume a: "a \<in> set out"
  have k: "zp_key to_period_start r = Some (agg_zipcode a, period a)
             \<longleftrightarrow> zipcode r = Some (agg_zipcode a)
                 \<and> (\<exists>d. inspection_date r = Some d \<and> to_period_start d = period a)" for r
    by (auto simp: zp_key_def split: option.splits)
  show "inspections a = int (length (filter
          (\<lambda>r. zipcode r = Some (agg_zipcode a)
             \<and> (\<exists>d. inspection_date r = Some d \<and> to_period_start d = period a)
             \<and> inspection_number r \<noteq> None)
          (rows df)))"
    using aggregate_by_zip_inspections [OF assms a] by (simp add: k conj_assoc)
qed

theorem null_zipcode_or_period_excluded_witness:
  "aggregate_by_zip month_start example_visits = Inr example_aggregates
   \<and> distinct (map (\<lambda>a. (agg_zipcode a, period a)) example_aggregates)
   \<and> set (map (\<lambda>a. (agg_zipcode a, period a)) example_aggregates)
       = {(z, month_start d) | z d.
            \<exists>r\<in>set (rows example_visits). zipcode r = Some z \<and> inspection_date r = Some d}
   \<and> inspections (example_aggregates ! 0) = int (length (filter
          (\<lambda>r. zipcode r = Some (agg_zipcode (example_aggregates ! 0))
             \<and> (\<exists>d. inspection_date r = Some d
                    \<and> month_start d = period (example_aggregates ! 0))
             \<and> inspection_number r \<noteq> None)
          (rows example_visits)))
   \<and> aggregate_by_zip month_start
        (example_visits\<lparr>rows := dropna_date_zip (rows example_visits)\<rparr>)
       = Inr example_aggregates
   \<and> map (\<lambda>a. (agg_zipcode a, period a, inspections a)) example_aggregates
       = [(''10001'', day 19358, 1)]"
proof -
  note t = null_zipcode_or_period_excluded [OF example_aggregates_built]
  note d = t [THEN conjunct1]
    and s = t [THEN conjunct2, THEN conjunct1]
    and i = t [THEN conjunct2, THEN conjunct2, THEN conjunct1]
    and e = t [THEN conjunct2, THEN conjunct2, THEN conjunct2]
  have m: "example_aggregates ! 0 \<in> set example_aggregates"
    by (simp add: example_aggregates_def)
  have v: "map (\<lambda>a. (agg_zipcode a, period a, inspections a)) example_aggregates
             = [(''10001'', day 19358, 1)]"
    by (simp add: example_aggregates_def)
  from example_aggregates_built d s bspec [OF i m] e v show ?thesis
    by (intro conjI)
qed

section \<open>Facts about the zip resolution\<close>

lemma use_existing_zip_length [simp]:
  "length (raw_rows (use_existing_zip df)) = length (raw_rows df)"
  by (simp add: use_existing_zip_def set_zipcode_def)

lemma use_existing_zip_columns:
  "set (raw_columns (use_existing_zip df)) \<subseteq> insert ''zipcode'' (set (raw_columns df))"
  "set (raw_columns df) \<subseteq> set (raw_columns (use_existing_zip df))"
  by (auto simp: use_existing_zip_def set_zipcode_def add_column_def)

lemma use_existing_zip_nth:
  assumes "i < length (raw_rows df)"
  shows "''zipcode'' \<in> set (raw_columns df) \<Longrightarrow>
           (raw_rows (use_existing_zip df) ! i) ''zipcode''
             = Some (zip5 ((raw_rows df ! i) ''zipcode''))"
    and "''zipcode'' \<notin> set (raw_columns df) \<Longrightarrow> ''postal_code'' \<in> set (raw_columns df) \<Longrightarrow>
           (raw_rows (use_existing_zip df) ! i) ''zipcode''
             = Some (zip5 ((raw_rows df ! i) ''postal_code''))"
    and "''zipcode'' \<notin> set (raw_columns df) \<Longrightarrow> ''postal_code'' \<notin> set (raw_columns df) \<Longrightarrow>
           use_existing_zip df = df"
  using assms by (simp_all add: use_existing_zip_def set_zipcode_def)

text \<open>The normalisation writes the text \<^verbatim>\<open>00nan\<close> for a record whose zip field is missing:
  after it the zipcode column has no missing cell.\<close>

lemma missing_zip_field_as_text:
  "map_sum id (map (get_cell ''zipcode'') \<circ> raw_rows)
     (spatially_join_zip None example_raw_table_without_zip)
   = Inr [Some ''00nan'']"
  by code_simp

lemma zip5_Some: "zip5 (Some z) = zfill 5 (take 5 z)"
  by (simp add: zip5_def astype_str_def)

lemma spatially_join_zip_without_join:
  assumes "spatially_join_zip zip_shapefile df = Inr out"
    and "\<not> spatial_join_runs zip_shapefile df"
  shows "out = use_existing_zip df"
proof (cases zip_shapefile)
  case None
  with assms(1) show ?thesis
    by (simp add: spatially_join_zip_def Let_def)
next
  case (Some src)
  from assms(2) Some use_existing_zip_columns [of df]
  have "\<not> path_exists src \<or> \<not> has_geometry src
        \<or> \<not> (''latitude'' \<in> set (raw_columns (use_existing_zip df))
              \<and> ''longitude'' \<in> set (raw_columns (use_existing_zip df)))"
    by (auto simp: spatial_join_runs_def)
  with assms(1) Some show ?thesis
    by (auto simp: spatially_join_zip_def Let_def split: if_splits)
qed


subsection \<open>The join\<close>

lemma suffixed_name_neq:
  "c @ ''_left'' \<noteq> ''ZIPCODE''" "c @ ''_right'' \<noteq> ''ZIPCODE''"
proof -
  have "last (c @ ''_left'') \<noteq> last ''ZIPCODE''" "last (c @ ''_right'') \<noteq> last ''ZIPCODE''"
    by simp_all
  then show "c @ ''_left'' \<noteq> ''ZIPCODE''" "c @ ''_right'' \<noteq> ''ZIPCODE''"
    by metis+
qed

lemma sjoin_row_ZIPCODE:
  assumes "''ZIPCODE'' \<in> set rcols" and "''ZIPCODE'' \<notin> set lcols"
  shows "sjoin_row lcols rcols l m ''ZIPCODE'' = m ''ZIPCODE''"
proof -
  have "\<forall>c\<in>set lcols. left_name rcols c \<noteq> ''ZIPCODE''"
    using assms(2) by (auto simp: left_name_def suffixed_name_neq)
  then have l: "find (\<lambda>c. left_name rcols c = ''ZIPCODE'') lcols = None"
    by (simp add: find_None_iff)
  have "right_name lcols ''ZIPCODE'' = ''ZIPCODE''"
    using assms(2) by (simp add: right_name_def)
  with assms(1) have "find (\<lambda>c. right_name lcols c = ''ZIPCODE'') rcols \<noteq> None"
    by (auto simp: find_None_iff)
  then obtain c where c: "find (\<lambda>c. right_name lcols c = ''ZIPCODE'') rcols = Some c"
    by auto
  then have "right_name lcols c = ''ZIPCODE''"
    by (auto simp: find_Some_iff)
  then have "c = ''ZIPCODE''"
    by (auto simp: right_name_def suffixed_name_neq split: if_splits)
  with l c show ?thesis
    by (simp add: sjoin_row_def)
qed

lemma ZIPCODE_in_joined_columns:
  assumes "''ZIPCODE'' \<in> set (zip_columns src)" and "''ZIPCODE'' \<notin> set (raw_columns t)"
  shows "''ZIPCODE'' \<in> set (raw_columns (sjoin t src))"
proof -
  have "right_name (raw_columns t) ''ZIPCODE'' = ''ZIPCODE''"
    using assms(2) by (simp add: right_name_def)
  with assms(1) have "''ZIPCODE'' \<in> right_name (raw_columns t) ` set (zip_columns src)"
    by (metis image_eqI)
  then show ?thesis
    by (simp add: sjoin_def Let_def)
qed

lemma spatially_join_zip_with_join:
  assumes "spatially_join_zip (Some src) df = Inr out"
    and "spatial_join_runs (Some src) df"
    and "''ZIPCODE'' \<in> set (zip_columns src)" and "''ZIPCODE'' \<notin> set (raw_columns df)"
  shows "map (get_cell ''zipcode'') (raw_rows out)
           = concat (map (joined_zipcodes src) (raw_rows (use_existing_zip df)))"
proof -
  let ?t = "use_existing_zip df"
  let ?lcols = "raw_columns ?t" and ?rcols = "zip_columns src"
  from assms(4) use_existing_zip_columns(1) [of df] have nl: "''ZIPCODE'' \<notin> set ?lcols"
    by auto
  from assms(2) use_existing_zip_columns(2) [of df]
  have runs: "path_exists src" "has_geometry src"
    "''latitude'' \<in> set ?lcols" "''longitude'' \<in> set ?lcols"
    by (auto simp: spatial_join_runs_def)
  have "find (\<lambda>c. c \<in> set (raw_columns (sjoin ?t src)))
          [''ZIPCODE'', ''ZIP'', ''zip'', ''zipcode''] = Some ''ZIPCODE''"
    using ZIPCODE_in_joined_columns [OF assms(3) nl] by simp
  with assms(1) runs have out: "out = drop_columns [''geometry'', ''index_right'']
      (set_zipcode (\<lambda>j. Some (zip5 (j ''ZIPCODE''))) (sjoin ?t src))"
    by (simp add: spatially_join_zip_def Let_def)
  have "map (get_cell ''zipcode'') (raw_rows out)
          = map (\<lambda>j. Some (zip5 (j ''ZIPCODE''))) (raw_rows (sjoin ?t src))"
    by (simp add: out drop_columns_def set_zipcode_def get_cell_def comp_def)
  also have "\<dots> = concat (map (\<lambda>l. map (\<lambda>j. Some (zip5 (j ''ZIPCODE'')))
        (case containing src (l ''longitude'') (l ''latitude'') of
           [] \<Rightarrow> [sjoin_row ?lcols ?rcols l (\<lambda>n. None)]
         | m # ms \<Rightarrow> map (sjoin_row ?lcols ?rcols l) (m # ms))) (raw_rows ?t))"
    by (simp add: sjoin_def Let_def map_concat comp_def)
  also have "\<dots> = concat (map (joined_zipcodes src) (raw_rows ?t))"
    by (rule arg_cong [where f = concat], rule map_cong [OF refl])
       (simp add: joined_zipcodes_def sjoin_row_ZIPCODE [OF assms(3) nl] comp_def
          split: list.splits)
  finally show ?thesis .
qed

section \<open>Properties of the zip resolution\<close>

text \<open>
  C6, as amended. When the spatial join does not run (no shapefile is given, its path does
  not exist, or the table has no latitude and longitude columns), the zipcode of a record
  is the value of its zipcode field if the table has a zipcode column, otherwise the value
  of its postal-code field if the table has a postal_code column, cut to five characters and
  padded with zeros, and a table with neither column is returned as it is. When the spatial
  join runs with a shapefile that supplies the column \<^verbatim>\<open>ZIPCODE\<close> and the point of every
  record lies in exactly one polygon, the zipcode of a record is the \<^verbatim>\<open>ZIPCODE\<close> of its
  polygon, whatever its zipcode field holds.
\<close>

theorem zipcode_precedence:
  assumes "spatially_join_zip zip_shapefile df = Inr out"
  shows "(\<not> spatial_join_runs zip_shapefile df \<longrightarrow>
            length (raw_rows out) = length (raw_rows df)
          \<and> (\<forall>i<length (raw_rows df). \<forall>z.
               (''zipcode'' \<in> set (raw_columns df) \<and> (raw_rows df ! i) ''zipcode'' = Some z
                \<or> ''zipcode'' \<notin> set (raw_columns df) \<and> ''postal_code'' \<in> set (raw_columns df)
                    \<and> (raw_rows df ! i) ''postal_code'' = Some z)
               \<longrightarrow> (raw_rows out ! i) ''zipcode'' = Some (zfill 5 (take 5 z)))
          \<and> (''zipcode'' \<notin> set (raw_columns df) \<and> ''postal_code'' \<notin> set (raw_columns df)
               \<longrightarrow> out = df))
       \<and> (\<forall>src. zip_shapefile = Some src \<and> spatial_join_runs zip_shapefile df
              \<and> ''ZIPCODE'' \<in> set (zip_columns src) \<and> ''ZIPCODE'' \<notin> set (raw_columns df)
              \<and> (\<forall>l\<in>set (raw_rows df).
                    \<exists>m. containing src (l ''longitude'') (l ''latitude'') = [m])
            \<longrightarrow> length (raw_rows out) = length (raw_rows df)
              \<and> (\<forall>i<length (raw_rows df). \<forall>m z.
                    containing src ((raw_rows df ! i) ''longitude'')
                      ((raw_rows df ! i) ''latitude'') = [m] \<and> m ''ZIPCODE'' = Some z
                    \<longrightarrow> (raw_rows out ! i) ''zipcode'' = Some (zfill 5 (take 5 z))))"
proof (intro conjI impI allI)
  assume n: "\<not> spatial_join_runs zip_shapefile df"
  note out = spatially_join_zip_without_join [OF assms n]
  show "length (raw_rows out) = length (raw_rows df)"
    by (simp add: out)
  show "(raw_rows out ! i) ''zipcode'' = Some (zfill 5 (take 5 z))"
    if "i < length (raw_rows df)"
      and "''zipcode'' \<in> set (raw_columns df) \<and> (raw_rows df ! i) ''zipcode'' = Some z
           \<or> ''zipcode'' \<notin> set (raw_columns df) \<and> ''postal_code'' \<in> set (raw_columns df)
               \<and> (raw_rows df ! i) ''postal_code'' = Some z" for i z
    using that use_existing_zip_nth(1,2) [OF that(1)]
    by (auto simp: out zip5_Some)
  show "out = df" if "''zipcode'' \<notin> set (raw_columns df) \<and> ''postal_code'' \<notin> set (raw_columns df)"
    using that by (simp add: out use_existing_zip_def)
next
  fix src
  assume a: "zip_shapefile = Some src \<and> spatial_join_runs zip_shapefile df
              \<and> ''ZIPCODE'' \<in> set (zip_columns src) \<and> ''ZIPCODE'' \<notin> set (raw_columns df)
              \<and> (\<forall>l\<in>set (raw_rows df).
                    \<exists>m. containing src (l ''longitude'') (l ''latitude'') = [m])"
  let ?t = "use_existing_zip df"
  let ?poly = "\<lambda>l. containing src (l ''longitude'') (l ''latitude'')"
  have cells: "(raw_rows ?t ! i) c = (raw_rows df ! i) c"
    if "i < length (raw_rows df)" and "c \<noteq> ''zipcode''" for i c
    using that by (simp add: use_existing_zip_def set_zipcode_def)
  have one: "joined_zipcodes src (raw_rows ?t ! i)
               = [Some (zip5 (hd (?poly (raw_rows df ! i)) ''ZIPCODE''))]"
    if "i < length (raw_rows df)" for i
  proof -
    from a that obtain m where "?poly (raw_rows df ! i) = [m]"
      by (metis nth_mem)
    with that show ?thesis
      by (simp add: joined_zipcodes_def cells)
  qed
  have "map (joined_zipcodes src) (raw_rows ?t)
          = map (\<lambda>i. [Some (zip5 (hd (?poly (raw_rows df ! i)) ''ZIPCODE''))])
              [0..<length (raw_rows df)]"
    by (rule nth_equalityI) (simp_all add: one)
  moreover from a assms have "spatially_join_zip (Some src) df = Inr out"
    and "spatial_join_runs (Some src) df"
    by auto
  then have "map (get_cell ''zipcode'') (raw_rows out)
               = concat (map (joined_zipcodes src) (raw_rows ?t))"
    using a by (intro spatially_join_zip_with_join) simp_all
  ultimately have z: "map (get_cell ''zipcode'') (raw_rows out)
          = map (\<lambda>i. Some (zip5 (hd (?poly (raw_rows df ! i)) ''ZIPCODE'')))
              [0..<length (raw_rows df)]"
    by (simp add: concat_map_singleton comp_def)
  from arg_cong [OF z, of length]
  show len: "length (raw_rows out) = length (raw_rows df)"
    by simp
  fix i m z
  assume i: "i < length (raw_rows df)"
    and m: "containing src ((raw_rows df ! i) ''longitude'') ((raw_rows df ! i) ''latitude'') = [m]
            \<and> m ''ZIPCODE'' = Some z"
  from arg_cong [OF z, of "\<lambda>xs. xs ! i"] i len
  have "(raw_rows out ! i) ''zipcode''
          = Some (zip5 (hd (?poly (raw_rows df ! i)) ''ZIPCODE''))"
    by (simp add: get_cell_def)
  with m show "(raw_rows out ! i) ''zipcode'' = Some (zfill 5 (take 5 z))"
    by (simp add: zip5_Some)
qed

theorem zipcode_precedence_witness:
  "spatially_join_zip None example_raw_table = Inr (use_existing_zip example_raw_table)
   \<and> (raw_rows (use_existing_zip example_raw_table) ! 0) ''zipcode'' = Some ''10001''
   \<and> (\<exists>out. spatially_join_zip (Some example_zips) example_raw_table = Inr out
          \<and> length (raw_rows out) = 1
          \<and> (raw_rows out ! 0) ''zipcode'' = Some ''10002'')"
proof -
  have rows: "raw_rows example_raw_table = [example_record]"
    and cols: "raw_columns example_raw_table
                 = [''camis'', ''inspection_date'', ''zipcode'', ''latitude'', ''longitude'']"
    by (simp_all add: example_raw_table_def)
  have rec: "example_record ''zipcode'' = Some ''10001''"
    "example_record ''longitude'' = Some ''-73.99''"
    "example_record ''latitude'' = Some ''40.75''"
    by (simp_all add: example_record_def)
  have h1: "spatially_join_zip None example_raw_table = Inr (use_existing_zip example_raw_table)"
    by (simp add: spatially_join_zip_def)
  have n1: "\<not> spatial_join_runs None example_raw_table"
    by (simp add: spatial_join_runs_def)
  from zipcode_precedence [OF h1] n1
  have "\<forall>i<length (raw_rows example_raw_table). \<forall>z.
          (''zipcode'' \<in> set (raw_columns example_raw_table)
             \<and> (raw_rows example_raw_table ! i) ''zipcode'' = Some z
           \<or> ''zipcode'' \<notin> set (raw_columns example_raw_table)
             \<and> ''postal_code'' \<in> set (raw_columns example_raw_table)
             \<and> (raw_rows example_raw_table ! i) ''postal_code'' = Some z)
          \<longrightarrow> (raw_rows (use_existing_zip example_raw_table) ! i) ''zipcode''
                = Some (zfill 5 (take 5 z))"
    by blast
  then have c1: "(raw_rows (use_existing_zip example_raw_table) ! 0) ''zipcode'' = Some ''10001''"
    by (simp add: rows cols rec zfill_def)
  have "\<exists>out. spatially_join_zip (Some example_zips) example_raw_table = Inr out"
    by (simp add: spatially_join_zip_def Let_def example_zips_def cols use_existing_zip_def
        set_zipcode_def add_column_def)
  then obtain out where h2: "spatially_join_zip (Some example_zips) example_raw_table = Inr out" ..
  have poly: "containing example_zips (Some ''-73.99'') (Some ''40.75'') = [example_polygon]"
    by (simp add: example_zips_def)
  have p2: "Some example_zips = Some example_zips
      \<and> spatial_join_runs (Some example_zips) example_raw_table
      \<and> ''ZIPCODE'' \<in> set (zip_columns example_zips)
      \<and> ''ZIPCODE'' \<notin> set (raw_columns example_raw_table)
      \<and> (\<forall>l\<in>set (raw_rows example_raw_table).
            \<exists>m. containing example_zips (l ''longitude'') (l ''latitude'') = [m])"
    by (simp add: spatial_join_runs_def rows cols rec poly) (simp add: example_zips_def)
  from zipcode_precedence [OF h2] p2
  have c2: "length (raw_rows out) = length (raw_rows example_raw_table)
      \<and> (\<forall>i<length (raw_rows example_raw_table). \<forall>m z.
            containing example_zips ((raw_rows example_raw_table ! i) ''longitude'')
              ((raw_rows example_raw_table ! i) ''latitude'') = [m] \<and> m ''ZIPCODE'' = Some z
            \<longrightarrow> (raw_rows out ! i) ''zipcode'' = Some (zfill 5 (take 5 z)))"
    by blast
  then have "length (raw_rows out) = 1"
    by (simp add: rows)
  moreover from c2 have "(raw_rows out ! 0) ''zipcode'' = Some ''10002''"
    by (simp add: rows rec poly example_polygon_def zfill_def)
  ultimately show ?thesis
    using h1 c1 h2 by blast
qed

text \<open>
  The claim as it was stated fails: the record has the explicit zipcode 10001, and the
  zipcode of the result is the 10002 of the polygon around its point.
\<close>

theorem spatial_lookup_replaces_zip_counterexample:
  "map_sum id (map (get_cell ''zipcode'') \<circ> raw_rows)
     (spatially_join_zip (Some example_zips) example_raw_table)
   = Inr [Some ''10002'']"
  by code_simp

section \<open>Facts about tables as objects\<close>

lemma new_object_simps [simp]:
  "fst (new_object h t) = h @ [t]" "snd (new_object h t) = length h"
  by (simp_all add: new_object_def)

lemma assign_last [simp]: "assign (h @ [t]) (length h) f = h @ [f t]"
  by (simp add: assign_def)

subsection \<open>The Hygiene Index Calculator on the store\<close>

lemma compute_hygiene_index_heap_eq:
  "compute_hygiene_index_heap ws wc wv h df =
     (if ''score'' \<in> set (columns (h ! df))
      then if ''critical_violations'' \<in> set (columns (set_score_filled (h ! df)))
              \<and> ''violation_count'' \<in> set (columns (set_score_filled (h ! df)))
           then (h @ [set_hygiene_index (set_hygiene_index_raw ws wc wv
                        (set_score_filled (h ! df)))], Inr (length h))
           else (h @ [set_score_filled (h ! df)], Inl KeyError)
      else (h @ [h ! df], Inl KeyError))"
  by (simp add: compute_hygiene_index_heap_def df_copy_def new_object_def Let_def)

text \<open>The store after the call is the store before it and one more object, and the
  result of the call is the value of the function on the argument.\<close>

lemma compute_hygiene_index_heap_store:
  "\<exists>t. fst (compute_hygiene_index_heap ws wc wv h df) = h @ [t]"
  by (simp add: compute_hygiene_index_heap_eq)

lemma compute_hygiene_index_heap_value:
  "(case snd (compute_hygiene_index_heap ws wc wv h df) of Inl e \<Rightarrow> Inl e
    | Inr b \<Rightarrow> Inr (fst (compute_hygiene_index_heap ws wc wv h df) ! b))
   = compute_hygiene_index ws wc wv (h ! df)"
  by (simp add: compute_hygiene_index_heap_eq compute_hygiene_index_def Let_def)

lemma compute_hygiene_index_heap_Inr:
  assumes "snd (compute_hygiene_index_heap ws wc wv h df) = Inr b"
  shows "b = length h"
    and "compute_hygiene_index ws wc wv (h ! df)
           = Inr (fst (compute_hygiene_index_heap ws wc wv h df) ! b)"
  using assms compute_hygiene_index_heap_value [of ws wc wv h df]
  by (simp_all add: compute_hygiene_index_heap_eq split: if_splits)

subsection \<open>What the calculator leaves as it is\<close>

lemma without_index_columns_update [simp]:
  "without_index_columns (r\<lparr>score_filled := v\<rparr>) = without_index_columns r"
  "without_index_columns (r\<lparr>hygiene_index_raw := v\<rparr>) = without_index_columns r"
  "without_index_columns (r\<lparr>hygiene_index := v\<rparr>) = without_index_columns r"
  by (simp_all add: without_index_columns_def)

lemma compute_hygiene_index_frame:
  assumes "compute_hygiene_index ws wc wv df = Inr out"
  shows "map without_index_columns (rows out) = map without_index_columns (rows df)"
    and "columns out = add_column ''hygiene_index'' (add_column ''hygiene_index_raw''
           (add_column ''score_filled'' (columns df)))"
proof -
  let ?t1 = "set_score_filled df"
  let ?t2 = "set_hygiene_index_raw ws wc wv ?t1"
  from assms have out: "out = set_hygiene_index ?t2"
    by (simp add: compute_hygiene_index_def Let_def split: if_splits)
  have l1: "length (fillna (median (map score (rows df))) (map score (rows df)))
              = length (rows df)"
    by simp
  have r1: "map without_index_columns (rows ?t1) = map without_index_columns (rows df)"
    by (simp add: set_score_filled_def map_map2_old [OF l1])
  have l2: "length (weighted_sum ws wc wv (s_scaled (rows ?t1)) (cv_scaled (rows ?t1))
              (vc_scaled (rows ?t1))) = length (rows ?t1)"
    by (rule length_weighted_sum) (simp_all add: s_scaled_def cv_scaled_def vc_scaled_def)
  have r2: "map without_index_columns (rows ?t2) = map without_index_columns (rows ?t1)"
    by (simp add: set_hygiene_index_raw_def map_map2_old [OF l2])
  have l3: "length (scale_100 (map hygiene_index_raw (rows ?t2))) = length (rows ?t2)"
    by simp
  have r3: "map without_index_columns (rows out) = map without_index_columns (rows ?t2)"
    by (simp add: out set_hygiene_index_def map_map2_old [OF l3])
  from r1 r2 r3 show "map without_index_columns (rows out) = map without_index_columns (rows df)"
    by simp
  show "columns out = add_column ''hygiene_index'' (add_column ''hygiene_index_raw''
           (add_column ''score_filled'' (columns df)))"
    by (simp add: out set_hygiene_index_def set_hygiene_index_raw_def set_score_filled_def)
qed

lemma compute_hygiene_index_total:
  assumes "set [''score'', ''critical_violations'', ''violation_count''] \<subseteq> set (columns df)"
  shows "\<exists>out. compute_hygiene_index ws wc wv df = Inr out"
  using assms
  by (simp add: compute_hygiene_index_def Let_def set_score_filled_def add_column_def)

subsection \<open>The History Builder on the store\<close>

lemma build_establishment_history_heap_eq:
  "build_establishment_history_heap h df =
     (case sort_frame (reorder_columns (h ! df)) of
        Inl e \<Rightarrow> (h @ [h ! df, reorder_columns (h ! df)], Inl e)
      | Inr t \<Rightarrow>
          (case groupby_agg (lag_columns t) of
             Inl e \<Rightarrow> (h @ [h ! df, reorder_columns (h ! df), lag_columns t], Inl e)
           | Inr a \<Rightarrow>
               (case sort_frame a of
                  Inl e \<Rightarrow> (h @ [h ! df, reorder_columns (h ! df), lag_columns t, a], Inl e)
                | Inr a' \<Rightarrow>
                    (h @ [h ! df, reorder_columns (h ! df), lag_columns t, a, lag_columns a'],
                     Inr (length h + 4)))))"
  by (simp add: build_establishment_history_heap_def df_copy_def new_object_def Let_def
      assign_def nth_append list_update_append split: sum.splits)

lemma build_establishment_history_heap_store:
  "\<exists>ts. fst (build_establishment_history_heap h df) = h @ ts"
  by (simp add: build_establishment_history_heap_eq split: sum.splits)

lemma build_establishment_history_heap_value:
  "(case snd (build_establishment_history_heap h df) of Inl e \<Rightarrow> Inl e
    | Inr b \<Rightarrow> Inr (fst (build_establishment_history_heap h df) ! b))
   = build_establishment_history (h ! df)"
  by (simp add: build_establishment_history_heap_eq build_establishment_history_def nth_append
      split: sum.splits)

section \<open>Properties of the functions on tables as objects\<close>

text \<open>
  C10. Neither function changes an object that exists when it is called, the table passed
  to it among them: each works on objects it makes. When \<^verbatim>\<open>compute_hygiene_index\<close> returns,
  the table it returns has the rows of its argument in their order, equal to them in every
  column but \<^verbatim>\<open>score_filled\<close>, \<^verbatim>\<open>hygiene_index_raw\<close> and \<^verbatim>\<open>hygiene_index\<close>, and it has the
  columns of its argument and these three; it returns whenever the argument has the columns
  \<^verbatim>\<open>score\<close>, \<^verbatim>\<open>critical_violations\<close> and \<^verbatim>\<open>violation_count\<close>.
\<close>

theorem arguments_are_not_mutated:
  assumes "df < length h"
  shows "take (length h) (fst (build_establishment_history_heap h df)) = h
       \<and> take (length h) (fst (compute_hygiene_index_heap ws wc wv h df)) = h
       \<and> (\<forall>b. snd (compute_hygiene_index_heap ws wc wv h df) = Inr b \<longrightarrow>
              b = length h
            \<and> map without_index_columns
                (rows (fst (compute_hygiene_index_heap ws wc wv h df) ! b))
                = map without_index_columns (rows (h ! df))
            \<and> columns (fst (compute_hygiene_index_heap ws wc wv h df) ! b)
                = add_column ''hygiene_index'' (add_column ''hygiene_index_raw''
                    (add_column ''score_filled'' (columns (h ! df)))))
       \<and> (set [''score'', ''critical_violations'', ''violation_count'']
              \<subseteq> set (columns (h ! df))
            \<longrightarrow> (\<exists>b. snd (compute_hygiene_index_heap ws wc wv h df) = Inr b))"
proof (intro conjI allI impI)
  from build_establishment_history_heap_store [of h df]
  obtain ts where "fst (build_establishment_history_heap h df) = h @ ts" ..
  then show "take (length h) (fst (build_establishment_history_heap h df)) = h"
    by simp
  from compute_hygiene_index_heap_store [of ws wc wv h df]
  obtain t where "fst (compute_hygiene_index_heap ws wc wv h df) = h @ [t]" ..
  then show "take (length h) (fst (compute_hygiene_index_heap ws wc wv h df)) = h"
    by simp
next
  fix b assume b: "snd (compute_hygiene_index_heap ws wc wv h df) = Inr b"
  note r = compute_hygiene_index_heap_Inr [OF b]
  show "b = length h" by (rule r(1))
  show "map without_index_columns (rows (fst (compute_hygiene_index_heap ws wc wv h df) ! b))
          = map without_index_columns (rows (h ! df))"
    by (rule compute_hygiene_index_frame(1) [OF r(2)])
  show "columns (fst (compute_hygiene_index_heap ws wc wv h df) ! b)
          = add_column ''hygiene_index'' (add_column ''hygiene_index_raw''
              (add_column ''score_filled'' (columns (h ! df))))"
    by (rule compute_hygiene_index_frame(2) [OF r(2)])
next
  assume "set [''score'', ''critical_violations'', ''violation_count''] \<subseteq> set (columns (h ! df))"
  from compute_hygiene_index_total [OF this, of ws wc wv]
  obtain out where "compute_hygiene_index ws wc wv (h ! df) = Inr out" ..
  with compute_hygiene_index_heap_value [of ws wc wv h df]
  show "\<exists>b. snd (compute_hygiene_index_heap ws wc wv h df) = Inr b"
    by (cases "snd (compute_hygiene_index_heap ws wc wv h df)") simp_all
qed

theorem arguments_are_not_mutated_witness:
  "(0::nat) < length [example_table, example_history]
   \<and> (1::nat) < length [example_table, example_history]
   \<and> take 2 (fst (build_establishment_history_heap [example_table, example_history] 0))
       = [example_table, example_history]
   \<and> take 2 (fst (compute_hygiene_index_heap (2 / 5) (1 / 2) (1 / 10)
               [example_table, example_history] 1))
       = [example_table, example_history]
   \<and> snd (compute_hygiene_index_heap (2 / 5) (1 / 2) (1 / 10)
            [example_table, example_history] 1) = Inr 2
   \<and> map without_index_columns (rows (fst (compute_hygiene_index_heap (2 / 5) (1 / 2) (1 / 10)
            [example_table, example_history] 1) ! 2))
       = map without_index_columns (rows example_history)
   \<and> columns (fst (compute_hygiene_index_heap (2 / 5) (1 / 2) (1 / 10)
            [example_table, example_history] 1) ! 2)
       = agg_columns @ [''inspection_number'', ''prev_inspection_date'', ''days_since_prev'',
           ''score_filled'', ''hygiene_index_raw'', ''hygiene_index'']"
proof -
  let ?h = "[example_table, example_history]"
  have l0: "(0::nat) < length ?h" and l1: "(1::nat) < length ?h"
    by simp_all
  have cols: "columns example_history = agg_columns @ [''inspection_number'',
      ''prev_inspection_date'', ''days_since_prev'']"
    by (simp add: example_history_def)
  have res: "snd (compute_hygiene_index_heap (2 / 5) (1 / 2) (1 / 10) ?h 1) = Inr 2"
    by (simp add: compute_hygiene_index_heap_eq cols agg_columns_def set_score_filled_def
        add_column_def)
  from arguments_are_not_mutated [OF l0, of "2 / 5" "1 / 2" "1 / 10"]
  have a: "take 2 (fst (build_establishment_history_heap ?h 0)) = ?h"
    by (simp add: numeral_2_eq_2)
  from arguments_are_not_mutated [OF l1, of "2 / 5" "1 / 2" "1 / 10"] res
  have b: "take 2 (fst (compute_hygiene_index_heap (2 / 5) (1 / 2) (1 / 10) ?h 1)) = ?h"
    and c: "map without_index_columns (rows (fst (compute_hygiene_index_heap (2 / 5) (1 / 2)
              (1 / 10) ?h 1) ! 2)) = map without_index_columns (rows example_history)"
    and d: "columns (fst (compute_hygiene_index_heap (2 / 5) (1 / 2) (1 / 10) ?h 1) ! 2)
              = add_column ''hygiene_index'' (add_column ''hygiene_index_raw''
                  (add_column ''score_filled'' (columns example_history)))"
    by (simp_all add: numeral_2_eq_2)
  from d have d': "columns (fst (compute_hygiene_index_heap (2 / 5) (1 / 2) (1 / 10) ?h 1) ! 2)
       = agg_columns @ [''inspection_number'', ''prev_inspection_date'', ''days_since_prev'',
           ''score_filled'', ''hygiene_index_raw'', ''hygiene_index'']"
    by (simp add: cols agg_columns_def add_column_def)
  from l0 l1 a b res c d' show ?thesis
    by (intro conjI)
qed

section \<open>The stages in a row\<close>

text \<open>
  \<^verbatim>\<open>run_pipeline.py\<close> passes the history with its indices to \<^verbatim>\<open>aggregate_by_zip\<close>. The
  history has the columns of the aggregation and of the lag only, so that call raises
  \<^verbatim>\<open>KeyError\<close> for the zipcode column: a table the Aggregator accepts carries a zipcode
  column from elsewhere, such as the one \<^verbatim>\<open>spatially_join_zip\<close> writes.
\<close>

lemma build_establishment_history_columns:
  assumes "build_establishment_history df = Inr out"
  shows "columns out = agg_columns @ [''inspection_number'', ''prev_inspection_date'',
           ''days_since_prev'']"
proof -
  obtain df_sorted where s1: "sort_frame (reorder_columns df) = Inr df_sorted"
    using assms by (cases "sort_frame (reorder_columns df)")
      (simp_all add: build_establishment_history_def)
  obtain agg where g: "groupby_agg (lag_columns df_sorted) = Inr agg"
    using assms s1 by (cases "groupby_agg (lag_columns df_sorted)")
      (simp_all add: build_establishment_history_def)
  obtain agg_sorted where s2: "sort_frame agg = Inr agg_sorted"
    using assms s1 g by (cases "sort_frame agg")
      (simp_all add: build_establishment_history_def)
  have out: "out = lag_columns agg_sorted"
    using assms s1 g s2 by (simp add: build_establishment_history_def)
  from g have "columns agg = agg_columns"
    by (auto simp: groupby_agg_def split: if_splits)
  with sort_frame_Inr(2) [OF s2] have "columns agg_sorted = agg_columns"
    by simp
  then show ?thesis
    by (simp add: out lag_columns_def add_column_def agg_columns_def)
qed

lemma pipeline_aggregation_raises:
  assumes "build_establishment_history df = Inr est_hist"
    and "compute_hygiene_index ws wc wv est_hist = Inr est_hist'"
  shows "aggregate_by_zip per est_hist' = Inl KeyError"
proof -
  have "''zipcode'' \<notin> set (columns est_hist')"
    by (simp add: compute_hygiene_index_frame(2) [OF assms(2)]
        build_establishment_history_columns [OF assms(1)] add_column_def agg_columns_def)
  then show ?thesis
    by (simp add: aggregate_by_zip_def)
qed

end
